theory Spec2Isabelle
  imports Main "HOL-Library.Word"
begin

section \<open>The lobby of octapod-challenge (internal/lobby.go)\<close>

text \<open>
  A shallow embedding of \<^verbatim>\<open>src/internal/lobby.go\<close>. Every method of \<^verbatim>\<open>Lobby\<close> becomes a
  function from the lobby before the call to the effects of the call (a list of events, in
  program order) and the lobby after it.

  \<^item> The registry \<^verbatim>\<open>map[string]*Octapod\<close> is a map from ids to octapod records. An octapod is
    only ever reached through the registry, an entry is never replaced or removed, so the
    key stands for the pointer: a write through \<^verbatim>\<open>o\<close> is an update of the map at \<^verbatim>\<open>o\<close>'s key.
  \<^item> Go iterates over a map in an unspecified order. Each function that ranges over the
    registry takes that order as an argument: a list of keys.
  \<^item> Each call runs from start to end on its own: the mutexes are left out and the
    interleaving of goroutines inside a call is not modelled.
  \<^item> What a call does to the outside (the log, the websocket connection, the chat bot, the
    sensor channel of an octapod, starting a goroutine) is an event. An event records the
    call: \<open>WriteMessage\<close> is the attempt to write, and the connection says whether it fails.
  \<^item> \<^verbatim>\<open>Octapod.Run\<close>, the octapod's own loop, is outside this file: the call is the event \<open>Run\<close>,
    and what the loop does to the octapod afterwards is not modelled.
  \<^item> A panic of the Go runtime (an index or a slice bound out of range) is a value.
\<close>

subsection \<open>Data\<close>

text \<open>\<^verbatim>\<open>type Point struct { X int; Y int }\<close>\<close>

datatype Point = Point int int

text \<open>
  The maze (the declaration of \<^verbatim>\<open>Maze\<close> is not in \<^verbatim>\<open>lobby.go\<close>): the fields \<^verbatim>\<open>DisplayMaze\<close>
  reads. \<^verbatim>\<open>cells[x][y]\<close> is true for a wall.
\<close>

record Maze =
  Width :: int
  Height :: int
  cells :: "bool list list"

text \<open>
  A websocket connection, as far as the lobby uses it. What the peer and the network
  answer is part of the connection: the result of the first \<^verbatim>\<open>ReadMessage\<close>, and the errors
  (if any) that \<^verbatim>\<open>WriteMessage\<close> and \<^verbatim>\<open>Close\<close> return.
\<close>

datatype ReadResult = ReadFails string | ReadReturns int string

record Connection =
  connId :: nat
  firstRead :: ReadResult
  writeError :: "string option"
  closeError :: "string option"

text \<open>\<^verbatim>\<open>websocket.TextMessage\<close>\<close>

definition TextMessage :: int where
  "TextMessage = 1"

text \<open>
  The wire messages. Their declarations are not in \<^verbatim>\<open>lobby.go\<close>; the fields are the ones it
  uses (\<^verbatim>\<open>auth.ID\<close>, \<^verbatim>\<open>auth.Password\<close>, \<^verbatim>\<open>ErrorMessage{Error: msg}\<close>).
\<close>

record AuthMessage =
  ID :: string
  Password :: string

datatype ErrorMessage = ErrorMessage string

text \<open>
  An octapod. \<^verbatim>\<open>lobby.go\<close> uses the fields \<^verbatim>\<open>Id\<close>, \<^verbatim>\<open>Conn\<close>, \<^verbatim>\<open>Position\<close>, \<^verbatim>\<open>InactiveCount\<close>,
  \<^verbatim>\<open>Sensor\<close> and \<^verbatim>\<open>Mutex\<close>. The channel \<^verbatim>\<open>Sensor\<close> is the event \<open>SensorSend\<close> below; the mutex is
  left out. \<open>secret\<close> is the credential of the specification's data model, which
  \<^verbatim>\<open>VerifyPassword\<close> checks. \<open>Position\<close> holds the pair \<^verbatim>\<open>int(o.Position.X())\<close>,
  \<^verbatim>\<open>int(o.Position.Y())\<close>. \<^verbatim>\<open>InactiveCount\<close> is compared with the \<^verbatim>\<open>int\<close> variable \<^verbatim>\<open>MaxInactive\<close>, so it
  is a Go \<^verbatim>\<open>int\<close>: on a 64-bit platform 64 bits, two's complement, and \<^verbatim>\<open>++\<close> wraps around.
\<close>

record Octapod =
  Id' :: string
  secret :: string
  Conn :: "Connection option"
  Position :: Point
  InactiveCount :: "64 word"

text \<open>\<^verbatim>\<open>type Lobby struct\<close>, without the mutex and the bot (its messages are events).\<close>

record Lobby =
  Maze :: Maze
  Octapods :: "string \<rightharpoonup> Octapod"
  timerRunning :: bool

text \<open>
  The events of a call. \<open>'s\<close> is the type of a sensor reading, whatever
  \<^verbatim>\<open>Maze.GetSensor\<close> returns.
\<close>

datatype 's event =
    LogPrintln string
  | SendMessage string
  | WriteMessage Connection int ErrorMessage
  | Close Connection
  | SensorSend string "'s option"
  | Run string
  | GoTimerLoop int

text \<open>\<^verbatim>\<open>var UpdateInterval = 1 * 15 * time.Second\<close> and the two other variables: a
  \<^verbatim>\<open>time.Duration\<close> counts nanoseconds, \<^verbatim>\<open>MaxInactive\<close> is a Go \<^verbatim>\<open>int\<close>.\<close>

definition UpdateInterval :: int where
  "UpdateInterval = 15 * 1000000000"

definition TimeoutInterval :: int where
  "TimeoutInterval = 1000000000"

definition MaxInactive :: "64 word" where
  "MaxInactive = 2"

subsection \<open>sendErrorAndClose\<close>

text \<open>
  Writes the error message; when the write fails it logs and returns, leaving the connection
  open; otherwise it closes the connection, logging a failure to close.
\<close>

definition sendErrorAndClose :: "Connection \<Rightarrow> string \<Rightarrow> 's event list" where
  "sendErrorAndClose conn msg =
     WriteMessage conn TextMessage (ErrorMessage msg) #
     (case writeError conn of
        Some err \<Rightarrow> [LogPrintln (''Error sending error message: '' @ err)]
      | None \<Rightarrow>
          Close conn #
          (case closeError conn of
             Some err \<Rightarrow> [LogPrintln (''Error closing connection: '' @ err)]
           | None \<Rightarrow> []))"

subsection \<open>StartTimer\<close>

text \<open>
  Under the lobby's lock: when the timer runs already, log and return. Otherwise set the
  flag and start the goroutine of the update and timeout cycle (the event \<open>GoTimerLoop\<close>).
  The goroutine calls \<^verbatim>\<open>Update\<close>, \<^verbatim>\<open>TimeoutUpdate\<close> and \<^verbatim>\<open>DisplayMaze("")\<close> in turn, for ever; these
  three are the functions of the same names below.
\<close>

definition StartTimer :: "Lobby \<Rightarrow> int \<Rightarrow> 's event list \<times> Lobby" where
  "StartTimer l timeout =
     (if timerRunning l then ([LogPrintln ''Timer already running.''], l)
      else ([GoTimerLoop timeout], l\<lparr>timerRunning := True\<rparr>))"

subsection \<open>The octapod's own methods\<close>

text \<open>
  Modelled from the spec: \<^verbatim>\<open>NewOctapod\<close>, which is declared outside \<^verbatim>\<open>lobby.go\<close>, with \<^verbatim>\<open>Octapod\<close>.
  The specification: a new probe is created with \<^emph>\<open>secret = password\<close> and \<^emph>\<open>connection = this
  stream\<close>, under the id of the handshake, and its \<^emph>\<open>inactiveCount starts at 0\<close>. The
  specification does not say on which cell of the maze a new octapod stands: the cell is the
  argument \<open>start\<close>.
\<close>

definition NewOctapod :: "string \<Rightarrow> string \<Rightarrow> Connection \<Rightarrow> Point \<Rightarrow> Octapod" where
  "NewOctapod id' password conn start =
     \<lparr>Id' = id', secret = password, Conn = Some conn, Position = start, InactiveCount = 0\<rparr>"

text \<open>
  Modelled from the spec: \<^verbatim>\<open>Octapod.VerifyPassword\<close>, which is declared outside \<^verbatim>\<open>lobby.go\<close>.
  The specification: the handshake is rejected \<^emph>\<open>if password does not match secret\<close>.
\<close>

definition VerifyPassword :: "Octapod \<Rightarrow> string \<Rightarrow> bool" where
  "VerifyPassword oct password \<longleftrightarrow> password = secret oct"

text \<open>
  Modelled from the spec: \<^verbatim>\<open>Octapod.Disconnect\<close>, which is declared outside \<^verbatim>\<open>lobby.go\<close>.
  The specification: a forced disconnection is \<^emph>\<open>closing its connection and clearing its
  connection field\<close>.
\<close>

definition Disconnect :: "Octapod \<Rightarrow> 's event list \<times> Octapod" where
  "Disconnect oct =
     (case Conn oct of
        None \<Rightarrow> ([], oct)
      | Some c \<Rightarrow> ([Close c], oct\<lparr>Conn := None\<rparr>))"

subsection \<open>The handshake: getAuthenticationMessage, identifyOctapod, HandleJoin\<close>

text \<open>
  One read. A failed read, a message that is not a text message and a text that
  \<^verbatim>\<open>json.Unmarshal\<close> refuses each end in \<open>sendErrorAndClose\<close> and an error. \<open>Unmarshal\<close> is
  \<^verbatim>\<open>json.Unmarshal\<close> into an \<^verbatim>\<open>AuthMessage\<close>: \<open>Inl\<close> its error, \<open>Inr\<close> the message read.
\<close>

definition getAuthenticationMessage ::
  "(string \<Rightarrow> string + AuthMessage) \<Rightarrow> Connection \<Rightarrow> 's event list \<times> (string + AuthMessage)" where
  "getAuthenticationMessage Unmarshal conn =
     (case firstRead conn of
        ReadFails err \<Rightarrow>
          (sendErrorAndClose conn (''Error reading authentication message: '' @ err), Inl err)
      | ReadReturns msgType content \<Rightarrow>
          if msgType \<noteq> TextMessage then
            (sendErrorAndClose conn ''Authentication requires a text message with credentials.'',
             Inl ''non-text auth message'')
          else
            (case Unmarshal content of
               Inl err \<Rightarrow> (sendErrorAndClose conn ''Invalid authentication message format.'', Inl err)
             | Inr auth \<Rightarrow> ([], Inr auth)))"

text \<open>
  The result is the octapod returned, as its key; the function never returns \<^verbatim>\<open>nil\<close>. An id
  that is not in the registry is registered, with no check at all. An id that is there is
  checked under the octapod's lock: the password first, then the connection.
\<close>

definition identifyOctapod ::
  "Point \<Rightarrow> Lobby \<Rightarrow> string \<Rightarrow> string \<Rightarrow> Connection \<Rightarrow> 's event list \<times> Lobby \<times> string option" where
  "identifyOctapod start l id' password conn =
     (case Octapods l id' of
        None \<Rightarrow>
          ([LogPrintln (''New octapod [ '' @ id' @ '' ] registered''),
            SendMessage (''New octapod ['' @ id' @ ''] registered''),
            Run id'],
           l\<lparr>Octapods := (Octapods l)(id' \<mapsto> NewOctapod id' password conn start)\<rparr>,
           Some id')
      | Some oct \<Rightarrow>
          if \<not> VerifyPassword oct password then
            (sendErrorAndClose conn ''Invalid password for octapod'' @ [Close conn], l, Some id')
          else if Conn oct \<noteq> None then
            (sendErrorAndClose conn ''Octapod already connected'' @ [Close conn], l, Some id')
          else
            ([LogPrintln (''Octapod [ '' @ id' @ '' ] reconnected''),
              SendMessage (''Octapod ['' @ id' @ ''] reconnected'')],
             l\<lparr>Octapods := (Octapods l)(id' \<mapsto> oct\<lparr>Conn := Some conn\<rparr>)\<rparr>,
             Some id'))"

text \<open>
  \<open>upgraded\<close> is the result of \<^verbatim>\<open>upgrader.Upgrade\<close>: its error or the connection. \<open>ToLower\<close> is
  \<^verbatim>\<open>strings.ToLower\<close>.
\<close>

definition HandleJoin ::
  "(string \<Rightarrow> string) \<Rightarrow> (string \<Rightarrow> string + AuthMessage) \<Rightarrow> Point \<Rightarrow> Lobby \<Rightarrow>
   string + Connection \<Rightarrow> 's event list \<times> Lobby" where
  "HandleJoin ToLower Unmarshal start l upgraded =
     (case upgraded of
        Inl err \<Rightarrow> ([LogPrintln err], l)
      | Inr conn \<Rightarrow>
          (case getAuthenticationMessage Unmarshal conn of
             (ev, Inl err) \<Rightarrow>
               (LogPrintln ''New connection established'' # ev @ [LogPrintln err], l)
           | (ev, Inr auth) \<Rightarrow>
               (case identifyOctapod start l (ToLower (ID auth)) (Password auth) conn of
                  (ev', l', None) \<Rightarrow>
                    (LogPrintln ''New connection established'' # ev @
                     LogPrintln ''Received an octapod authentication message'' # ev', l')
                | (ev', l', Some k) \<Rightarrow>
                    (LogPrintln ''New connection established'' # ev @
                     LogPrintln ''Received an octapod authentication message'' # ev' @ [Run k],
                     l'))))"

subsection \<open>The two phases of the scheduler: Update and TimeoutUpdate\<close>

text \<open>
  \<open>pods\<close> is the snapshot of the registry, in the order the loop visits it. A key that is
  not in the registry stands for no octapod and is passed over. \<open>GetSensor\<close> is
  \<^verbatim>\<open>Maze.GetSensor\<close>. The send on the channel \<^verbatim>\<open>o.Sensor\<close> is an event; that the octapod's own
  loop takes the value from the channel is assumed.
\<close>

fun UpdateLoop :: "(Maze \<Rightarrow> Point \<Rightarrow> 's) \<Rightarrow> string list \<Rightarrow> Lobby \<Rightarrow> 's event list \<times> Lobby" where
  "UpdateLoop GetSensor [] l = ([], l)"
| "UpdateLoop GetSensor (k # pods) l =
     (case Octapods l k of
        None \<Rightarrow> UpdateLoop GetSensor pods l
      | Some oct \<Rightarrow>
          if Conn oct = None then UpdateLoop GetSensor pods l
          else
            (case UpdateLoop GetSensor pods
                    (l\<lparr>Octapods :=
                         (Octapods l)(k \<mapsto> oct\<lparr>InactiveCount := InactiveCount oct + 1\<rparr>)\<rparr>) of
               (ev, l') \<Rightarrow>
                 (SensorSend k (Some (GetSensor (Maze l) (Position oct))) #
                  LogPrintln (''Sensor data sent to octapod [ '' @ Id' oct @ '' ]'') # ev,
                  l')))"

definition Update :: "(Maze \<Rightarrow> Point \<Rightarrow> 's) \<Rightarrow> Lobby \<Rightarrow> string list \<Rightarrow> 's event list \<times> Lobby" where
  "Update GetSensor l pods = UpdateLoop GetSensor pods l"

fun TimeoutUpdateLoop :: "string list \<Rightarrow> Lobby \<Rightarrow> 's event list \<times> Lobby" where
  "TimeoutUpdateLoop [] l = ([], l)"
| "TimeoutUpdateLoop (k # pods) l =
     (case Octapods l k of
        None \<Rightarrow> TimeoutUpdateLoop pods l
      | Some oct \<Rightarrow>
          if Conn oct = None then TimeoutUpdateLoop pods l
          else if MaxInactive \<le>s InactiveCount oct then
            (case Disconnect oct of
               (evd, oct') \<Rightarrow>
                 (case TimeoutUpdateLoop pods (l\<lparr>Octapods := (Octapods l)(k \<mapsto> oct')\<rparr>) of
                    (ev, l') \<Rightarrow>
                      (SensorSend k None #
                       LogPrintln (''Timeout signal sent to octapod '' @ Id' oct) #
                       evd @
                       LogPrintln (''Octapod [ '' @ Id' oct @ '' ] disconnected due to inactivity'') #
                       ev,
                       l')))
          else
            (case TimeoutUpdateLoop pods l of
               (ev, l') \<Rightarrow>
                 (SensorSend k None #
                  LogPrintln (''Timeout signal sent to octapod '' @ Id' oct) # ev,
                  l')))"

definition TimeoutUpdate :: "Lobby \<Rightarrow> string list \<Rightarrow> 's event list \<times> Lobby" where
  "TimeoutUpdate l pods = TimeoutUpdateLoop pods l"

text \<open>A list of keys is an order of iteration over the registry when it names every key once.\<close>

definition iteration_order :: "Lobby \<Rightarrow> string list \<Rightarrow> bool" where
  "iteration_order l ks \<longleftrightarrow> distinct ks \<and> set ks = dom (Octapods l)"

subsection \<open>DisplayMaze\<close>

text \<open>The two panics of the Go runtime that \<^verbatim>\<open>DisplayMaze\<close> can run into.\<close>

datatype panic = IndexOutOfRange | SliceBoundsOutOfRange

text \<open>
  The local map \<^verbatim>\<open>octapodPositions\<close>, as the list of its assignments, the latest first: the
  map is empty when the list is, and \<open>map_of\<close> finds the latest assignment to a key, as the
  lookup in the Go map does. \<open>order'\<close> is the order in which the loop visits the registry.
\<close>

fun octapodPositionsLoop ::
  "(string \<Rightarrow> string) \<Rightarrow> Lobby \<Rightarrow> string \<Rightarrow> string list \<Rightarrow> (Point \<times> Octapod) list \<Rightarrow>
   (Point \<times> Octapod) list" where
  "octapodPositionsLoop ToLower l id' [] ps = ps"
| "octapodPositionsLoop ToLower l id' (k # ks) ps =
     (case Octapods l k of
        None \<Rightarrow> octapodPositionsLoop ToLower l id' ks ps
      | Some oct \<Rightarrow>
          if id' = [] then octapodPositionsLoop ToLower l id' ks ((Position oct, oct) # ps)
          else if Id' oct = ToLower id' then
            octapodPositionsLoop ToLower l id' ks ((Position oct, oct) # ps)
          else octapodPositionsLoop ToLower l id' ks ps)"

definition octapodPositions ::
  "(string \<Rightarrow> string) \<Rightarrow> Lobby \<Rightarrow> string list \<Rightarrow> string \<Rightarrow> (Point \<times> Octapod) list" where
  "octapodPositions ToLower l order' id' = octapodPositionsLoop ToLower l id' order' []"

text \<open>\<^verbatim>\<open>l.Maze.cells[x][y]\<close>, with the bounds checks of the two index expressions.\<close>

definition cellAt :: "Maze \<Rightarrow> nat \<Rightarrow> nat \<Rightarrow> panic + bool" where
  "cellAt m x y =
     (if x < length (cells m) then
        (if y < length (cells m ! x) then Inr (cells m ! x ! y) else Inl IndexOutOfRange)
      else Inl IndexOutOfRange)"

text \<open>
  The body of the inner loop: what is appended to \<^verbatim>\<open>result\<close> for the cell \<open>(x, y)\<close>. The slice
  \<^verbatim>\<open>octapod.Id[0:1]\<close> is the first byte of the id and panics on the empty id.
\<close>

definition renderCell :: "Maze \<Rightarrow> (Point \<times> Octapod) list \<Rightarrow> nat \<Rightarrow> nat \<Rightarrow> panic + string" where
  "renderCell m ps x y =
     (case cellAt m x y of
        Inl e \<Rightarrow> Inl e
      | Inr wall \<Rightarrow>
          if wall then Inr ''# ''
          else
            (case map_of ps (Point (int x) (int y)) of
               Some oct \<Rightarrow>
                 if 1 \<le> length (Id' oct) then Inr (take 1 (Id' oct) @ '' '')
                 else Inl SliceBoundsOutOfRange
             | None \<Rightarrow> Inr ''  ''))"

text \<open>The inner loop over \<open>x\<close> and the outer loop over \<open>y\<close>; a panic ends both.\<close>

fun renderRow ::
  "Maze \<Rightarrow> (Point \<times> Octapod) list \<Rightarrow> nat \<Rightarrow> nat list \<Rightarrow> string \<Rightarrow> panic + string" where
  "renderRow m ps y [] result = Inr result"
| "renderRow m ps y (x # xs) result =
     (case renderCell m ps x y of
        Inl e \<Rightarrow> Inl e
      | Inr s \<Rightarrow> renderRow m ps y xs (result @ s))"

fun renderRows ::
  "Maze \<Rightarrow> (Point \<times> Octapod) list \<Rightarrow> nat list \<Rightarrow> string \<Rightarrow> panic + string" where
  "renderRows m ps [] result = Inr result"
| "renderRows m ps (y # ys) result =
     (case renderRow m ps y [0..<nat (Width m)] result of
        Inl e \<Rightarrow> Inl e
      | Inr r \<Rightarrow> renderRows m ps ys (r @ ''# \<newline>''))"

definition DisplayMaze ::
  "(string \<Rightarrow> string) \<Rightarrow> Lobby \<Rightarrow> string list \<Rightarrow> string \<Rightarrow> panic + string" where
  "DisplayMaze ToLower l order' id' =
     (let ps = octapodPositions ToLower l order' id' in
      if length ps = 0 then
        (if id' = [] then Inr ''No octapods in the lobby.''
         else Inr (''No octapods ['' @ id' @ ''] in the lobby.''))
      else
        (case renderRows (Maze l) ps [0..<nat (Height (Maze l))] [] of
           Inl e \<Rightarrow> Inl e
         | Inr result \<Rightarrow>
             Inr (''```\<newline>'' @
                  (result @ concat (replicate (nat (Width (Maze l))) ''# '') @ ''# \<newline>'') @
                  ''```'')))"

subsection \<open>Sequences of calls\<close>

text \<open>
  The calls that reach a lobby from outside: the join handler, the two phases of the
  scheduler and the start of the timer. \<^verbatim>\<open>DisplayMaze\<close> reads the lobby and changes nothing, so
  it is no part of a history. \<open>calls\<close> runs a list of calls one after the other and returns
  the events of all of them and the lobby they leave.
\<close>

datatype call =
    CallHandleJoin "string + Connection" Point
  | CallUpdate "string list"
  | CallTimeoutUpdate "string list"
  | CallStartTimer int

fun step ::
  "(string \<Rightarrow> string) \<Rightarrow> (string \<Rightarrow> string + AuthMessage) \<Rightarrow> (Maze \<Rightarrow> Point \<Rightarrow> 's) \<Rightarrow>
   Lobby \<Rightarrow> call \<Rightarrow> 's event list \<times> Lobby" where
  "step ToLower Unmarshal GetSensor l (CallHandleJoin upgraded start) =
     HandleJoin ToLower Unmarshal start l upgraded"
| "step ToLower Unmarshal GetSensor l (CallUpdate pods) = Update GetSensor l pods"
| "step ToLower Unmarshal GetSensor l (CallTimeoutUpdate pods) = TimeoutUpdate l pods"
| "step ToLower Unmarshal GetSensor l (CallStartTimer timeout) = StartTimer l timeout"

fun calls ::
  "(string \<Rightarrow> string) \<Rightarrow> (string \<Rightarrow> string + AuthMessage) \<Rightarrow> (Maze \<Rightarrow> Point \<Rightarrow> 's) \<Rightarrow>
   Lobby \<Rightarrow> call list \<Rightarrow> 's event list \<times> Lobby" where
  "calls ToLower Unmarshal GetSensor l [] = ([], l)"
| "calls ToLower Unmarshal GetSensor l (c # cs) =
     (case step ToLower Unmarshal GetSensor l c of
        (ev, l') \<Rightarrow>
          (case calls ToLower Unmarshal GetSensor l' cs of
             (ev', l'') \<Rightarrow> (ev @ ev', l'')))"

text \<open>
  \<open>keeps_credentials l l'\<close>: every octapod of \<open>l\<close> is in \<open>l'\<close> under its key, with the id and
  the secret it had.
\<close>

definition keeps_credentials :: "Lobby \<Rightarrow> Lobby \<Rightarrow> bool" where
  "keeps_credentials l l' \<longleftrightarrow>
     (\<forall>k oct. Octapods l k = Some oct \<longrightarrow>
        (\<exists>oct'. Octapods l' k = Some oct' \<and> Id' oct' = Id' oct \<and> secret oct' = secret oct))"

subsection \<open>Values for the examples\<close>

text \<open>
  \<^verbatim>\<open>strings.ToLower\<close> on ASCII text: the letters \<^verbatim>\<open>A\<close> to \<^verbatim>\<open>Z\<close> move by 32, every other byte stays.
\<close>

definition asciiToLower :: "string \<Rightarrow> string" where
  "asciiToLower s =
     map (\<lambda>c. if (65::nat) \<le> of_char c \<and> of_char c \<le> (90::nat)
              then char_of (of_char c + (32::nat)) else c) s"

text \<open>A maze of two columns and two rows: the cell \<open>(1, 0)\<close> is a wall, the other three are
  open.\<close>

definition smallMaze :: Maze where
  "smallMaze = \<lparr>Width = 2, Height = 2, cells = [[False, False], [True, False]]\<rparr>"

definition emptyLobby :: Lobby where
  "emptyLobby = \<lparr>Maze = smallMaze, Octapods = Map.empty, timerRunning = True\<rparr>"

text \<open>
  Three connections. On the first two every call succeeds; on the third the peer is gone:
  the read fails, and so does the write.
\<close>

definition conn1 :: Connection where
  "conn1 = \<lparr>connId = 1, firstRead = ReadReturns 1 ''{}'', writeError = None, closeError = None\<rparr>"

definition conn2 :: Connection where
  "conn2 = \<lparr>connId = 2, firstRead = ReadReturns 1 ''{}'', writeError = None, closeError = None\<rparr>"

definition conn3 :: Connection where
  "conn3 = \<lparr>connId = 3, firstRead = ReadFails ''EOF'', writeError = Some ''broken pipe'',
            closeError = None\<rparr>"

text \<open>A sensor whose reading at a cell is the cell.\<close>

definition pointSensor :: "Maze \<Rightarrow> Point \<Rightarrow> Point" where
  "pointSensor m p = p"

text \<open>
  What \<^verbatim>\<open>json.Unmarshal\<close> makes of the text \<^verbatim>\<open>{}\<close>: no error, and both fields empty. Every other
  text is refused here.
\<close>

definition unmarshalEmpty :: "string \<Rightarrow> string + AuthMessage" where
  "unmarshalEmpty content =
     (if content = ''{}'' then Inr \<lparr>ID = [], Password = []\<rparr>
      else Inl ''invalid character'')"

text \<open>The lobby after the octapod \<^verbatim>\<open>a1\<close> has registered with the password \<^verbatim>\<open>x\<close> on \<open>conn1\<close>.\<close>

definition lobbyA1 :: Lobby where
  "lobbyA1 = emptyLobby\<lparr>Octapods := [''a1'' \<mapsto> NewOctapod ''a1'' ''x'' conn1 (Point 0 0)]\<rparr>"

text \<open>
  A lobby of two connected octapods on the same cell: \<^verbatim>\<open>a1\<close> has missed two update cycles,
  \<^verbatim>\<open>b2\<close> one.
\<close>

definition lobbyTwo :: Lobby where
  "lobbyTwo = emptyLobby\<lparr>Octapods :=
     [''a1'' \<mapsto> (NewOctapod ''a1'' ''x'' conn1 (Point 0 0))\<lparr>InactiveCount := 2\<rparr>,
      ''b2'' \<mapsto> (NewOctapod ''b2'' ''z'' conn2 (Point 0 0))\<lparr>InactiveCount := 1\<rparr>]\<rparr>"

text \<open>A lobby of two connected octapods on two cells.\<close>

definition lobbyApart :: Lobby where
  "lobbyApart = emptyLobby\<lparr>Octapods :=
     [''a1'' \<mapsto> NewOctapod ''a1'' ''x'' conn1 (Point 0 0),
      ''b2'' \<mapsto> NewOctapod ''b2'' ''z'' conn2 (Point 0 1)]\<rparr>"

text \<open>
  The maze has the cells that \<^verbatim>\<open>DisplayMaze\<close> reads: \<open>Width\<close> columns of \<open>Height\<close> cells at
  least. (The constructor \<^verbatim>\<open>NewMaze\<close> is not among the sources.)
\<close>

definition maze_ok :: "Maze \<Rightarrow> bool" where
  "maze_ok m \<longleftrightarrow>
     nat (Width m) \<le> length (cells m) \<and>
     (\<forall>x < nat (Width m). nat (Height m) \<le> length (cells m ! x))"

text \<open>
  The lobby two scheduler cycles after \<open>lobbyA1\<close>: an update phase, a timeout phase, and both
  once more.
\<close>

definition lobbyA1Evicted :: Lobby where
  "lobbyA1Evicted =
     snd (calls asciiToLower unmarshalEmpty pointSensor lobbyA1
            [CallUpdate [''a1''], CallTimeoutUpdate [''a1''],
             CallUpdate [''a1''], CallTimeoutUpdate [''a1'']])"

text \<open>The snapshot of a phase of the scheduler names every octapod of the registry once.\<close>

fun snapshot_ok :: "Lobby \<Rightarrow> call \<Rightarrow> bool" where
  "snapshot_ok l (CallUpdate pods) = iteration_order l pods"
| "snapshot_ok l (CallTimeoutUpdate pods) = iteration_order l pods"
| "snapshot_ok l c = True"

subsection \<open>Reading the events\<close>

text \<open>\<open>deliveries k ev\<close>: what the events \<open>ev\<close> send on the sensor channel of the octapod \<open>k\<close>, in
  order: \<open>Some\<close> a reading, or \<open>None\<close> for the \<^verbatim>\<open>nil\<close> of the timeout phase.\<close>

fun deliveries :: "string \<Rightarrow> 's event list \<Rightarrow> 's option list" where
  "deliveries k [] = []"
| "deliveries k (SensorSend k' s # ev) =
     (if k' = k then s # deliveries k ev else deliveries k ev)"
| "deliveries k (e # ev) = deliveries k ev"

section \<open>Properties\<close>

subsection \<open>Credentials are kept\<close>

text \<open>
  No call removes an octapod from the registry, and none writes its id or its secret.
\<close>

lemma keeps_credentials_refl: "keeps_credentials l l"
  by (simp add: keeps_credentials_def)

lemma keeps_credentials_trans:
  "keeps_credentials l l' \<Longrightarrow> keeps_credentials l' l'' \<Longrightarrow> keeps_credentials l l''"
  unfolding keeps_credentials_def by fastforce

lemma keeps_credentials_update:
  assumes "Octapods l k = Some oct" "Id' oct' = Id' oct" "secret oct' = secret oct"
  shows "keeps_credentials l (l\<lparr>Octapods := (Octapods l)(k \<mapsto> oct')\<rparr>)"
  using assms by (simp add: keeps_credentials_def)

lemma keeps_credentials_insert:
  assumes "Octapods l k = None"
  shows "keeps_credentials l (l\<lparr>Octapods := (Octapods l)(k \<mapsto> oct')\<rparr>)"
  using assms by (auto simp add: keeps_credentials_def)

lemma identifyOctapod_keeps:
  "identifyOctapod start l i pw conn = (ev, l', r) \<Longrightarrow> keeps_credentials l l'"
  by (auto simp add: identifyOctapod_def keeps_credentials_refl keeps_credentials_insert
      keeps_credentials_update split: option.splits if_splits)

lemma HandleJoin_keeps:
  "HandleJoin ToLower Unmarshal start l upgraded = (ev, l') \<Longrightarrow> keeps_credentials l l'"
  by (auto simp add: HandleJoin_def keeps_credentials_refl
      split: sum.splits prod.splits option.splits dest: identifyOctapod_keeps)

lemma UpdateLoop_keeps:
  "UpdateLoop GetSensor pods l = (ev, l') \<Longrightarrow> keeps_credentials l l'"
proof (induction pods arbitrary: l ev)
  case Nil
  then show ?case by (simp add: keeps_credentials_refl)
next
  case (Cons k pods)
  show ?case
  proof (cases "Octapods l k")
    case None
    with Cons show ?thesis by simp
  next
    case (Some oct)
    show ?thesis
    proof (cases "Conn oct = None")
      case True
      with Some Cons show ?thesis by simp
    next
      case False
      let ?l1 = "l\<lparr>Octapods := (Octapods l)(k \<mapsto> oct\<lparr>InactiveCount := InactiveCount oct + 1\<rparr>)\<rparr>"
      obtain ev1 where r: "UpdateLoop GetSensor pods ?l1 = (ev1, l')"
        using Cons.prems Some False by (auto split: prod.splits)
      have "keeps_credentials l ?l1"
        using Some by (simp add: keeps_credentials_update)
      moreover have "keeps_credentials ?l1 l'"
        using r by (rule Cons.IH)
      ultimately show ?thesis by (rule keeps_credentials_trans)
    qed
  qed
qed

lemma TimeoutUpdateLoop_keeps:
  "TimeoutUpdateLoop pods l = (ev :: 's event list, l') \<Longrightarrow> keeps_credentials l l'"
proof (induction pods arbitrary: l ev)
  case Nil
  then show ?case by (simp add: keeps_credentials_refl)
next
  case (Cons k pods)
  show ?case
  proof (cases "Octapods l k")
    case None
    with Cons show ?thesis by simp
  next
    case (Some oct)
    note oct = this
    show ?thesis
    proof (cases "Conn oct")
      case None
      with oct Cons show ?thesis by simp
    next
      case (Some c)
      show ?thesis
      proof (cases "MaxInactive \<le>s InactiveCount oct")
        case True
        let ?l1 = "l\<lparr>Octapods := (Octapods l)(k \<mapsto> oct\<lparr>Conn := None\<rparr>)\<rparr>"
        obtain ev1 :: "'s event list" where r: "TimeoutUpdateLoop pods ?l1 = (ev1, l')"
          using Cons.prems oct Some True by (auto simp add: Disconnect_def split: prod.splits)
        have "keeps_credentials l ?l1"
          using oct by (simp add: keeps_credentials_update)
        moreover have "keeps_credentials ?l1 l'"
          using r by (rule Cons.IH)
        ultimately show ?thesis by (rule keeps_credentials_trans)
      next
        case False
        obtain ev1 :: "'s event list" where r: "TimeoutUpdateLoop pods l = (ev1, l')"
          using Cons.prems oct Some False by (auto split: prod.splits)
        then show ?thesis by (rule Cons.IH)
      qed
    qed
  qed
qed

lemma step_keeps:
  "step ToLower Unmarshal GetSensor l c = (ev, l') \<Longrightarrow> keeps_credentials l l'"
  by (cases c)
    (auto simp add: Update_def TimeoutUpdate_def StartTimer_def keeps_credentials_refl
      keeps_credentials_def [of l "l\<lparr>timerRunning := True\<rparr>"]
      split: if_splits dest: HandleJoin_keeps UpdateLoop_keeps TimeoutUpdateLoop_keeps)

lemma calls_keeps:
  "calls ToLower Unmarshal GetSensor l cs = (ev, l') \<Longrightarrow> keeps_credentials l l'"
proof (induction cs arbitrary: l ev)
  case Nil
  then show ?case by (simp add: keeps_credentials_refl)
next
  case (Cons c cs)
  obtain ev1 l1 where s: "step ToLower Unmarshal GetSensor l c = (ev1, l1)"
    by (cases "step ToLower Unmarshal GetSensor l c") auto
  obtain ev2 where r: "calls ToLower Unmarshal GetSensor l1 cs = (ev2, l')"
    using Cons.prems s by (auto split: prod.splits)
  have "keeps_credentials l l1" using s by (rule step_keeps)
  moreover have "keeps_credentials l1 l'" using r by (rule Cons.IH)
  ultimately show ?case by (rule keeps_credentials_trans)
qed

lemma keeps_credentialsD:
  "keeps_credentials l l' \<Longrightarrow> Octapods l k = Some oct \<Longrightarrow>
   \<exists>oct'. Octapods l' k = Some oct' \<and> Id' oct' = Id' oct \<and> secret oct' = secret oct"
  by (simp add: keeps_credentials_def)

subsection \<open>The first handshake fixes the credential\<close>

text \<open>
  C1. A handshake for an id that is not in the registry always succeeds: it writes no error
  and closes nothing, and it registers an octapod whose secret is the password supplied and
  whose connection is the new one. After any further calls on the lobby, a handshake for the
  same id with another password is rejected: the error message is written to the new
  connection, the connection is closed, and the lobby, with the secret stored in it, is
  what it was before the handshake.
\<close>

theorem first_handshake_fixes_credential:
  assumes "Octapods l i = None"
    and "identifyOctapod start l i pw conn = (ev1 :: 's event list, l1, r1)"
    and "calls ToLower Unmarshal GetSensor l1 cs = (ev2 :: 's event list, l2)"
    and "pw' \<noteq> pw"
    and "identifyOctapod start' l2 i pw' conn' = (ev3 :: 's event list, l3, r3)"
  shows "ev1 = [LogPrintln (''New octapod [ '' @ i @ '' ] registered''),
                SendMessage (''New octapod ['' @ i @ ''] registered''), Run i] \<and>
         r1 = Some i \<and>
         (\<exists>oct. Octapods l1 i = Some oct \<and> secret oct = pw \<and> Conn oct = Some conn) \<and>
         (\<exists>rest. ev3 = WriteMessage conn' TextMessage (ErrorMessage ''Invalid password for octapod'') # rest
                 \<and> Close conn' \<in> set rest) \<and>
         l3 = l2 \<and> r3 = Some i \<and>
         (\<exists>oct. Octapods l3 i = Some oct \<and> secret oct = pw)"
proof -
  from assms(1,2) have first:
    "ev1 = [LogPrintln (''New octapod [ '' @ i @ '' ] registered''),
            SendMessage (''New octapod ['' @ i @ ''] registered''), Run i]"
    "r1 = Some i"
    "Octapods l1 i = Some (NewOctapod i pw conn start)"
    by (auto simp add: identifyOctapod_def)
  have new: "secret (NewOctapod i pw conn start) = pw" "Conn (NewOctapod i pw conn start) = Some conn"
    by (simp_all add: NewOctapod_def)
  from keeps_credentialsD [OF calls_keeps [OF assms(3)] first(3)] new(1)
  obtain oct where oct: "Octapods l2 i = Some oct" "secret oct = pw"
    by auto
  from oct assms(4,5) have later:
    "ev3 = sendErrorAndClose conn' ''Invalid password for octapod'' @ [Close conn']" "l3 = l2"
    "r3 = Some i"
    by (auto simp add: identifyOctapod_def VerifyPassword_def)
  have "\<exists>rest. ev3 = WriteMessage conn' TextMessage (ErrorMessage ''Invalid password for octapod'') # rest
                 \<and> Close conn' \<in> set rest"
    using later(1) by (simp add: sendErrorAndClose_def)
  with first new oct later(2,3) show ?thesis by simp
qed

theorem first_handshake_fixes_credential_witness:
  "Octapods emptyLobby ''a1'' = None \<and> ''y'' \<noteq> ''x'' \<and>
   (\<exists>ev1 l1 r1 ev2 l2.
      identifyOctapod (Point 0 0) emptyLobby ''a1'' ''x'' conn1 = (ev1 :: Point event list, l1, r1) \<and>
      calls asciiToLower unmarshalEmpty pointSensor l1 [CallUpdate [''a1''], CallTimeoutUpdate [''a1'']]
        = (ev2 :: Point event list, l2) \<and>
      identifyOctapod (Point 0 0) l2 ''a1'' ''y'' conn2 =
        ([WriteMessage conn2 TextMessage (ErrorMessage ''Invalid password for octapod''),
          Close conn2, Close conn2] :: Point event list, l2, Some ''a1'') \<and>
      (\<exists>oct. Octapods l2 ''a1'' = Some oct \<and> secret oct = ''x''))"
proof -
  obtain ev1 :: "Point event list" and l1 r1 where
    a: "identifyOctapod (Point 0 0) emptyLobby ''a1'' ''x'' conn1 = (ev1, l1, r1)"
    by (cases "identifyOctapod (Point 0 0) emptyLobby ''a1'' ''x'' conn1 :: Point event list \<times> Lobby \<times> string option") auto
  obtain ev2 :: "Point event list" and l2 where
    b: "calls asciiToLower unmarshalEmpty pointSensor l1 [CallUpdate [''a1''], CallTimeoutUpdate [''a1'']] = (ev2, l2)"
    by (cases "calls asciiToLower unmarshalEmpty pointSensor l1 [CallUpdate [''a1''], CallTimeoutUpdate [''a1'']]") auto
  obtain ev3 :: "Point event list" and l3 r3 where
    c: "identifyOctapod (Point 0 0) l2 ''a1'' ''y'' conn2 = (ev3, l3, r3)"
    by (cases "identifyOctapod (Point 0 0) l2 ''a1'' ''y'' conn2 :: Point event list \<times> Lobby \<times> string option") auto
  have n: "Octapods emptyLobby ''a1'' = None" by (simp add: emptyLobby_def)
  have d: "''y'' \<noteq> ''x''" by simp
  note t = first_handshake_fixes_credential [OF n a b d c]
  from t c have "ev3 = sendErrorAndClose conn2 ''Invalid password for octapod'' @ [Close conn2]"
    by (auto simp add: identifyOctapod_def VerifyPassword_def split: option.splits if_splits)
  then have "ev3 = [WriteMessage conn2 TextMessage (ErrorMessage ''Invalid password for octapod''),
          Close conn2, Close conn2]"
    by (simp add: sendErrorAndClose_def conn2_def)
  with t a b c n d show ?thesis by auto
qed

subsection \<open>A handshake for a connected octapod\<close>

text \<open>
  C2, as stated, says that every further handshake for a connected octapod is answered with
  the error \<^verbatim>\<open>Octapod already connected\<close>. The password is checked first: \<^verbatim>\<open>a1\<close> is connected on
  \<open>conn1\<close>, and a handshake for \<^verbatim>\<open>a1\<close> with the wrong password \<^verbatim>\<open>y\<close> is answered with
  \<^verbatim>\<open>Invalid password for octapod\<close>; the other message is never written.
\<close>

theorem connected_handshake_wrong_password:
  "Octapods lobbyA1 ''a1'' = Some (NewOctapod ''a1'' ''x'' conn1 (Point 0 0)) \<and>
   Conn (NewOctapod ''a1'' ''x'' conn1 (Point 0 0)) = Some conn1 \<and>
   identifyOctapod (Point 0 0) lobbyA1 ''a1'' ''y'' conn2 =
     ([WriteMessage conn2 TextMessage (ErrorMessage ''Invalid password for octapod''),
       Close conn2, Close conn2] :: Point event list, lobbyA1, Some ''a1'') \<and>
   WriteMessage conn2 TextMessage (ErrorMessage ''Octapod already connected'') \<notin>
     set (fst (identifyOctapod (Point 0 0) lobbyA1 ''a1'' ''y'' conn2
               :: Point event list \<times> Lobby \<times> string option))"
  by (simp add: identifyOctapod_def lobbyA1_def emptyLobby_def NewOctapod_def VerifyPassword_def
      sendErrorAndClose_def conn2_def)

text \<open>
  C2, amended. When the octapod of an id has a connection, every further handshake for the
  id is rejected: an error message is written to the new connection and the new connection is
  closed, the lobby is unchanged, and so the connection the octapod had stays attached. With
  the octapod's password the message is \<^verbatim>\<open>Octapod already connected\<close>, with any other password
  it is \<^verbatim>\<open>Invalid password for octapod\<close>. The field \<open>Conn\<close> holds one connection or none, so an
  octapod never has two.
\<close>

theorem connected_handshake_rejected:
  assumes "Octapods l i = Some oct" and "Conn oct = Some c"
    and "identifyOctapod start l i pw conn = (ev :: 's event list, l', r)"
  shows "(\<exists>rest. ev = WriteMessage conn TextMessage
                        (ErrorMessage (if pw = secret oct then ''Octapod already connected''
                                       else ''Invalid password for octapod'')) # rest \<and>
                 Close conn \<in> set rest) \<and>
         l' = l \<and> r = Some i \<and> Octapods l' i = Some oct \<and> Conn oct = Some c"
  using assms
  by (auto simp add: identifyOctapod_def VerifyPassword_def sendErrorAndClose_def
      split: if_splits)

theorem connected_handshake_rejected_witness:
  "Octapods lobbyA1 ''a1'' = Some (NewOctapod ''a1'' ''x'' conn1 (Point 0 0)) \<and>
   Conn (NewOctapod ''a1'' ''x'' conn1 (Point 0 0)) = Some conn1 \<and>
   identifyOctapod (Point 0 0) lobbyA1 ''a1'' ''x'' conn2 =
     ([WriteMessage conn2 TextMessage (ErrorMessage ''Octapod already connected''),
       Close conn2, Close conn2] :: Point event list, lobbyA1, Some ''a1'')"
proof -
  have a: "Octapods lobbyA1 ''a1'' = Some (NewOctapod ''a1'' ''x'' conn1 (Point 0 0))"
    by (simp add: lobbyA1_def)
  have b: "Conn (NewOctapod ''a1'' ''x'' conn1 (Point 0 0)) = Some conn1"
    by (simp add: NewOctapod_def)
  obtain ev :: "Point event list" and l' r where
    c: "identifyOctapod (Point 0 0) lobbyA1 ''a1'' ''x'' conn2 = (ev, l', r)"
    by (cases "identifyOctapod (Point 0 0) lobbyA1 ''a1'' ''x'' conn2
               :: Point event list \<times> Lobby \<times> string option") auto
  note t = connected_handshake_rejected [OF a b c]
  have "ev = sendErrorAndClose conn2 ''Octapod already connected'' @ [Close conn2]"
    using a b c by (simp add: identifyOctapod_def VerifyPassword_def NewOctapod_def)
  then have "ev = [WriteMessage conn2 TextMessage (ErrorMessage ''Octapod already connected''),
       Close conn2, Close conn2]"
    by (simp add: sendErrorAndClose_def conn2_def)
  with t a b c show ?thesis by simp
qed

subsection \<open>What the two phases do to each octapod\<close>

lemma UpdateLoop_effect:
  assumes "distinct pods" and "UpdateLoop GetSensor pods l = (ev, l')"
  shows "Maze l' = Maze l \<and> timerRunning l' = timerRunning l \<and>
         (\<forall>k. Octapods l' k =
            (if k \<in> set pods then
               (case Octapods l k of
                  None \<Rightarrow> None
                | Some oct \<Rightarrow>
                    if Conn oct = None then Some oct
                    else Some (oct\<lparr>InactiveCount := InactiveCount oct + 1\<rparr>))
             else Octapods l k)) \<and>
         (\<forall>k. deliveries k ev =
            (if k \<in> set pods then
               (case Octapods l k of
                  None \<Rightarrow> []
                | Some oct \<Rightarrow>
                    if Conn oct = None then []
                    else [Some (GetSensor (Maze l) (Position oct))])
             else []))"
  using assms
proof (induction pods arbitrary: l ev)
  case Nil
  then show ?case by simp
next
  case (Cons k0 pods)
  from Cons.prems(1) have d: "distinct pods" and n: "k0 \<notin> set pods" by simp_all
  show ?case
  proof (cases "Octapods l k0")
    case None
    with Cons.prems(2) have "UpdateLoop GetSensor pods l = (ev, l')" by simp
    from Cons.IH [OF d this] None n show ?thesis by auto
  next
    case (Some oct)
    show ?thesis
    proof (cases "Conn oct = None")
      case True
      with Some Cons.prems(2) have "UpdateLoop GetSensor pods l = (ev, l')" by simp
      from Cons.IH [OF d this] Some True n show ?thesis by auto
    next
      case False
      let ?l1 = "l\<lparr>Octapods := (Octapods l)(k0 \<mapsto> oct\<lparr>InactiveCount := InactiveCount oct + 1\<rparr>)\<rparr>"
      obtain ev1 where r: "UpdateLoop GetSensor pods ?l1 = (ev1, l')"
        and e: "ev = SensorSend k0 (Some (GetSensor (Maze l) (Position oct))) #
                  LogPrintln (''Sensor data sent to octapod [ '' @ Id' oct @ '' ]'') # ev1"
        using Cons.prems(2) Some False by (auto split: prod.splits)
      note ih = Cons.IH [OF d r]
      note conn = False
      have m: "Maze l' = Maze l" "timerRunning l' = timerRunning l"
        using ih by simp_all
      have o: "Octapods l' k =
            (if k \<in> set (k0 # pods) then
               (case Octapods l k of
                  None \<Rightarrow> None
                | Some oct \<Rightarrow>
                    if Conn oct = None then Some oct
                    else Some (oct\<lparr>InactiveCount := InactiveCount oct + 1\<rparr>))
             else Octapods l k)" for k
      proof (cases "k = k0")
        case True
        have "Octapods l' k0 = Octapods ?l1 k0"
          using ih n by simp
        with True Some conn show ?thesis by auto
      next
        case False
        have "Octapods ?l1 k = Octapods l k" using False by simp
        moreover have "Octapods l' k =
            (if k \<in> set pods then
               (case Octapods ?l1 k of
                  None \<Rightarrow> None
                | Some oct \<Rightarrow>
                    if Conn oct = None then Some oct
                    else Some (oct\<lparr>InactiveCount := InactiveCount oct + 1\<rparr>))
             else Octapods ?l1 k)"
          using ih by blast
        ultimately show ?thesis using False by simp
      qed
      have v: "deliveries k ev =
            (if k \<in> set (k0 # pods) then
               (case Octapods l k of
                  None \<Rightarrow> []
                | Some oct \<Rightarrow>
                    if Conn oct = None then []
                    else [Some (GetSensor (Maze l) (Position oct))])
             else [])" for k
      proof (cases "k = k0")
        case True
        have "deliveries k0 ev1 = []"
          using ih n by simp
        with True Some conn e show ?thesis by auto
      next
        case False
        have "Octapods ?l1 k = Octapods l k" "Maze ?l1 = Maze l" using False by simp_all
        moreover have "deliveries k ev1 =
            (if k \<in> set pods then
               (case Octapods ?l1 k of
                  None \<Rightarrow> []
                | Some oct \<Rightarrow>
                    if Conn oct = None then []
                    else [Some (GetSensor (Maze ?l1) (Position oct))])
             else [])"
          using ih by blast
        ultimately show ?thesis using False e by (simp split: option.splits)
      qed
      from m o v show ?thesis by blast
    qed
  qed
qed

text \<open>
  C5. The update phase, run over a snapshot that holds every octapod of the registry once.
  An octapod with a connection has its \<open>InactiveCount\<close> incremented by one (the \<^verbatim>\<open>++\<close> of a Go
  \<^verbatim>\<open>int\<close>), and the one value sent on its channel is the sensor reading of the maze at the
  position it has. An octapod without a connection is unchanged, and nothing is sent on its
  channel.
\<close>

theorem Update_phase:
  assumes "iteration_order l pods"
    and "Update GetSensor l pods = (ev, l')"
    and "Octapods l k = Some oct"
  shows "(Conn oct \<noteq> None \<longrightarrow>
            Octapods l' k = Some (oct\<lparr>InactiveCount := InactiveCount oct + 1\<rparr>) \<and>
            deliveries k ev = [Some (GetSensor (Maze l) (Position oct))]) \<and>
         (Conn oct = None \<longrightarrow> Octapods l' k = Some oct \<and> deliveries k ev = [])"
proof -
  from assms(1) have d: "distinct pods" and s: "set pods = dom (Octapods l)"
    by (simp_all add: iteration_order_def)
  from assms(2) have u: "UpdateLoop GetSensor pods l = (ev, l')"
    by (simp add: Update_def)
  from s assms(3) have k: "k \<in> set pods" by auto
  note e = UpdateLoop_effect [OF d u]
  from e have "Octapods l' k =
      (if k \<in> set pods then
         (case Octapods l k of
            None \<Rightarrow> None
          | Some oct \<Rightarrow>
              if Conn oct = None then Some oct
              else Some (oct\<lparr>InactiveCount := InactiveCount oct + 1\<rparr>))
       else Octapods l k)" by blast
  moreover from e have "deliveries k ev =
      (if k \<in> set pods then
         (case Octapods l k of
            None \<Rightarrow> []
          | Some oct \<Rightarrow>
              if Conn oct = None then []
              else [Some (GetSensor (Maze l) (Position oct))])
       else [])" by blast
  ultimately show ?thesis using k assms(3) by auto
qed

theorem Update_phase_witness:
  "iteration_order lobbyA1 [''a1''] \<and>
   Octapods lobbyA1 ''a1'' = Some (NewOctapod ''a1'' ''x'' conn1 (Point 0 0)) \<and>
   (\<exists>ev l'. Update pointSensor lobbyA1 [''a1''] = (ev, l') \<and>
      Octapods l' ''a1'' =
        Some ((NewOctapod ''a1'' ''x'' conn1 (Point 0 0))\<lparr>InactiveCount := 1\<rparr>) \<and>
      deliveries ''a1'' ev = [Some (Point 0 0)])"
proof -
  have a: "iteration_order lobbyA1 [''a1'']"
    by (simp add: iteration_order_def lobbyA1_def)
  have b: "Octapods lobbyA1 ''a1'' = Some (NewOctapod ''a1'' ''x'' conn1 (Point 0 0))"
    by (simp add: lobbyA1_def)
  obtain ev l' where c: "Update pointSensor lobbyA1 [''a1''] = (ev, l')"
    by (cases "Update pointSensor lobbyA1 [''a1'']") auto
  have n: "Conn (NewOctapod ''a1'' ''x'' conn1 (Point 0 0)) \<noteq> None"
    "InactiveCount (NewOctapod ''a1'' ''x'' conn1 (Point 0 0)) + 1 = 1"
    "Position (NewOctapod ''a1'' ''x'' conn1 (Point 0 0)) = Point 0 0"
    by (simp_all add: NewOctapod_def)
  from Update_phase [OF a c b] n a b c show ?thesis
    by (simp add: pointSensor_def)
qed

lemma TimeoutUpdateLoop_effect:
  assumes "distinct pods" and "TimeoutUpdateLoop pods l = (ev :: 's event list, l')"
  shows "Maze l' = Maze l \<and> timerRunning l' = timerRunning l \<and>
         (\<forall>k. Octapods l' k =
            (if k \<in> set pods then
               (case Octapods l k of
                  None \<Rightarrow> None
                | Some oct \<Rightarrow>
                    if Conn oct \<noteq> None \<and> MaxInactive \<le>s InactiveCount oct
                    then Some (oct\<lparr>Conn := None\<rparr>) else Some oct)
             else Octapods l k)) \<and>
         (\<forall>k. deliveries k ev =
            (if k \<in> set pods then
               (case Octapods l k of
                  None \<Rightarrow> []
                | Some oct \<Rightarrow> if Conn oct = None then [] else [None])
             else []))"
  using assms
proof (induction pods arbitrary: l ev)
  case Nil
  then show ?case by simp
next
  case (Cons k0 pods)
  from Cons.prems(1) have d: "distinct pods" and n: "k0 \<notin> set pods" by simp_all
  show ?case
  proof (cases "Octapods l k0")
    case None
    with Cons.prems(2) have "TimeoutUpdateLoop pods l = (ev, l')" by simp
    from Cons.IH [OF d this] None n show ?thesis by auto
  next
    case (Some oct)
    note oct = this
    show ?thesis
    proof (cases "Conn oct")
      case None
      with oct Cons.prems(2) have "TimeoutUpdateLoop pods l = (ev, l')" by simp
      from Cons.IH [OF d this] oct None n show ?thesis by auto
    next
      case (Some c)
      note conn = this
      show ?thesis
      proof (cases "MaxInactive \<le>s InactiveCount oct")
        case False
        note cnt = this
        obtain ev1 :: "'s event list" where r: "TimeoutUpdateLoop pods l = (ev1, l')"
          and e: "ev = SensorSend k0 None #
                    LogPrintln (''Timeout signal sent to octapod '' @ Id' oct) # ev1"
          using Cons.prems(2) oct conn cnt by (auto split: prod.splits)
        note ih = Cons.IH [OF d r]
        have v: "deliveries k ev =
            (if k \<in> set (k0 # pods) then
               (case Octapods l k of
                  None \<Rightarrow> []
                | Some oct \<Rightarrow> if Conn oct = None then [] else [None])
             else [])" for k
        proof (cases "k = k0")
          case True
          have "deliveries k0 ev1 = []" using ih n by simp
          with True oct conn e show ?thesis by simp
        next
          case False
          with ih e show ?thesis by simp
        qed
        from ih oct conn cnt n v show ?thesis by auto
      next
        case True
        note cnt = this
        let ?l1 = "l\<lparr>Octapods := (Octapods l)(k0 \<mapsto> oct\<lparr>Conn := None\<rparr>)\<rparr>"
        obtain ev1 :: "'s event list" where r: "TimeoutUpdateLoop pods ?l1 = (ev1, l')"
          and e: "ev = SensorSend k0 None #
                    LogPrintln (''Timeout signal sent to octapod '' @ Id' oct) #
                    Close c #
                    LogPrintln (''Octapod [ '' @ Id' oct @ '' ] disconnected due to inactivity'') #
                    ev1"
          using Cons.prems(2) oct conn cnt
          by (auto simp add: Disconnect_def split: prod.splits)
        note ih = Cons.IH [OF d r]
        have m: "Maze l' = Maze l" "timerRunning l' = timerRunning l"
          using ih by simp_all
        have o: "Octapods l' k =
            (if k \<in> set (k0 # pods) then
               (case Octapods l k of
                  None \<Rightarrow> None
                | Some oct \<Rightarrow>
                    if Conn oct \<noteq> None \<and> MaxInactive \<le>s InactiveCount oct
                    then Some (oct\<lparr>Conn := None\<rparr>) else Some oct)
             else Octapods l k)" for k
        proof (cases "k = k0")
          case True
          have "Octapods l' k0 = Octapods ?l1 k0" using ih n by simp
          with True oct conn cnt show ?thesis by simp
        next
          case False
          have "Octapods l' k =
            (if k \<in> set pods then
               (case Octapods ?l1 k of
                  None \<Rightarrow> None
                | Some oct \<Rightarrow>
                    if Conn oct \<noteq> None \<and> MaxInactive \<le>s InactiveCount oct
                    then Some (oct\<lparr>Conn := None\<rparr>) else Some oct)
             else Octapods ?l1 k)"
            using ih by blast
          with False show ?thesis by simp
        qed
        have v: "deliveries k ev =
            (if k \<in> set (k0 # pods) then
               (case Octapods l k of
                  None \<Rightarrow> []
                | Some oct \<Rightarrow> if Conn oct = None then [] else [None])
             else [])" for k
        proof (cases "k = k0")
          case True
          have "deliveries k0 ev1 = []" using ih n by simp
          with True oct conn e show ?thesis by simp
        next
          case False
          have "deliveries k ev1 =
            (if k \<in> set pods then
               (case Octapods ?l1 k of
                  None \<Rightarrow> []
                | Some oct \<Rightarrow> if Conn oct = None then [] else [None])
             else [])"
            using ih by blast
          with False e show ?thesis by simp
        qed
        from m o v show ?thesis by blast
      qed
    qed
  qed
qed

lemma TimeoutUpdateLoop_marker_then_close:
  assumes "distinct pods" and "TimeoutUpdateLoop pods l = (ev :: 's event list, l')"
    and "k \<in> set pods" and "Octapods l k = Some oct" and "Conn oct = Some c"
    and "MaxInactive \<le>s InactiveCount oct"
  shows "\<exists>pre post. ev = pre @ SensorSend k None #
           LogPrintln (''Timeout signal sent to octapod '' @ Id' oct) # Close c # post"
  using assms
proof (induction pods arbitrary: l ev)
  case Nil
  then show ?case by simp
next
  case (Cons k0 pods)
  from Cons.prems(1) have d: "distinct pods" and n: "k0 \<notin> set pods" by simp_all
  show ?case
  proof (cases "k = k0")
    case True
    with Cons.prems(2,4,5,6) have "\<exists>post. ev = SensorSend k None #
           LogPrintln (''Timeout signal sent to octapod '' @ Id' oct) # Close c # post"
      by (auto simp add: Disconnect_def split: prod.splits)
    then show ?thesis by (metis append_Nil)
  next
    case False
    with Cons.prems(3) have k: "k \<in> set pods" by simp
    obtain hd1 l1 and ev1 :: "'s event list" where
      r: "TimeoutUpdateLoop pods l1 = (ev1, l')" and e: "ev = hd1 @ ev1"
      and o: "Octapods l1 k = Some oct"
    proof (cases "Octapods l k0")
      case None
      with Cons.prems(2) have "TimeoutUpdateLoop pods l = (ev, l')" "ev = [] @ ev" by simp_all
      with Cons.prems(4) that show ?thesis by blast
    next
      case (Some oct0)
      note oct0 = this
      show ?thesis
      proof (cases "Conn oct0")
        case None
        with oct0 Cons.prems(2) have "TimeoutUpdateLoop pods l = (ev, l')" "ev = [] @ ev"
          by simp_all
        with Cons.prems(4) that show ?thesis by blast
      next
        case (Some c0)
        show ?thesis
        proof (cases "MaxInactive \<le>s InactiveCount oct0")
          case False
          with oct0 Some Cons.prems(2) obtain ev1 :: "'s event list" where
            "TimeoutUpdateLoop pods l = (ev1, l')"
            "ev = [SensorSend k0 None,
                   LogPrintln (''Timeout signal sent to octapod '' @ Id' oct0)] @ ev1"
            by (auto split: prod.splits)
          with Cons.prems(4) that show ?thesis by blast
        next
          case True
          let ?l1 = "l\<lparr>Octapods := (Octapods l)(k0 \<mapsto> oct0\<lparr>Conn := None\<rparr>)\<rparr>"
          from True oct0 Some Cons.prems(2) obtain ev1 :: "'s event list" where
            "TimeoutUpdateLoop pods ?l1 = (ev1, l')"
            "ev = [SensorSend k0 None,
                   LogPrintln (''Timeout signal sent to octapod '' @ Id' oct0),
                   Close c0,
                   LogPrintln (''Octapod [ '' @ Id' oct0 @ '' ] disconnected due to inactivity'')]
                  @ ev1"
            by (auto simp add: Disconnect_def split: prod.splits)
          moreover have "Octapods ?l1 k = Some oct"
            using Cons.prems(4) \<open>k \<noteq> k0\<close> by simp
          ultimately show ?thesis using that by blast
        qed
      qed
    qed
    from Cons.IH [OF d r k o Cons.prems(5,6)] obtain pre post where
      "ev1 = pre @ SensorSend k None #
           LogPrintln (''Timeout signal sent to octapod '' @ Id' oct) # Close c # post"
      by blast
    with e have "ev = (hd1 @ pre) @ SensorSend k None #
           LogPrintln (''Timeout signal sent to octapod '' @ Id' oct) # Close c # post"
      by simp
    then show ?thesis by blast
  qed
qed

text \<open>
  C6. The timeout phase, run over a snapshot that holds every octapod of the registry once.
  On the channel of every octapod with a connection it sends \<^verbatim>\<open>nil\<close>, once, whatever the
  \<open>InactiveCount\<close> is. When the count has reached \<open>MaxInactive\<close> (a signed comparison) the
  octapod is disconnected in this very phase: after the \<^verbatim>\<open>nil\<close> its connection is closed, and its
  field \<open>Conn\<close> is cleared. An octapod below the threshold is unchanged and so stays connected.
  An octapod without a connection is unchanged, and nothing is sent on its channel.
\<close>

theorem TimeoutUpdate_phase:
  assumes "iteration_order l pods"
    and "TimeoutUpdate l pods = (ev :: 's event list, l')"
    and "Octapods l k = Some oct"
  shows "(Conn oct = None \<longrightarrow> Octapods l' k = Some oct \<and> deliveries k ev = []) \<and>
         (\<forall>c. Conn oct = Some c \<longrightarrow>
            deliveries k ev = [None] \<and>
            (MaxInactive \<le>s InactiveCount oct \<longrightarrow>
               Octapods l' k = Some (oct\<lparr>Conn := None\<rparr>) \<and>
               (\<exists>pre post. ev = pre @ SensorSend k None #
                  LogPrintln (''Timeout signal sent to octapod '' @ Id' oct) # Close c # post)) \<and>
            (\<not> MaxInactive \<le>s InactiveCount oct \<longrightarrow> Octapods l' k = Some oct))"
proof -
  from assms(1) have d: "distinct pods" and s: "set pods = dom (Octapods l)"
    by (simp_all add: iteration_order_def)
  from assms(2) have u: "TimeoutUpdateLoop pods l = (ev, l')"
    by (simp add: TimeoutUpdate_def)
  from s assms(3) have k: "k \<in> set pods" by auto
  note e = TimeoutUpdateLoop_effect [OF d u]
  from e have o: "Octapods l' k =
      (if k \<in> set pods then
         (case Octapods l k of
            None \<Rightarrow> None
          | Some oct \<Rightarrow>
              if Conn oct \<noteq> None \<and> MaxInactive \<le>s InactiveCount oct
              then Some (oct\<lparr>Conn := None\<rparr>) else Some oct)
       else Octapods l k)" by blast
  from e have v: "deliveries k ev =
      (if k \<in> set pods then
         (case Octapods l k of
            None \<Rightarrow> []
          | Some oct \<Rightarrow> if Conn oct = None then [] else [None])
       else [])" by blast
  have c: "\<exists>pre post. ev = pre @ SensorSend k None #
        LogPrintln (''Timeout signal sent to octapod '' @ Id' oct) # Close c # post"
    if "Conn oct = Some c" "MaxInactive \<le>s InactiveCount oct" for c
    using TimeoutUpdateLoop_marker_then_close [OF d u k assms(3) that] .
  from o v c k assms(3) show ?thesis by auto
qed

theorem TimeoutUpdate_phase_witness:
  "iteration_order lobbyTwo [''a1'', ''b2''] \<and>
   MaxInactive \<le>s 2 \<and> \<not> MaxInactive \<le>s 1 \<and>
   (\<exists>ev l'. TimeoutUpdate lobbyTwo [''a1'', ''b2''] = (ev :: Point event list, l') \<and>
      Octapods l' ''a1'' =
        Some ((NewOctapod ''a1'' ''x'' conn1 (Point 0 0))\<lparr>InactiveCount := 2, Conn := None\<rparr>) \<and>
      Octapods l' ''b2'' =
        Some ((NewOctapod ''b2'' ''z'' conn2 (Point 0 0))\<lparr>InactiveCount := 1\<rparr>) \<and>
      deliveries ''a1'' ev = [None] \<and> deliveries ''b2'' ev = [None] \<and>
      Close conn1 \<in> set ev)"
proof -
  let ?a = "(NewOctapod ''a1'' ''x'' conn1 (Point 0 0))\<lparr>InactiveCount := 2\<rparr>"
  let ?b = "(NewOctapod ''b2'' ''z'' conn2 (Point 0 0))\<lparr>InactiveCount := 1\<rparr>"
  have i: "iteration_order lobbyTwo [''a1'', ''b2'']"
    by (auto simp add: iteration_order_def lobbyTwo_def)
  have a: "Octapods lobbyTwo ''a1'' = Some ?a" and b: "Octapods lobbyTwo ''b2'' = Some ?b"
    by (simp_all add: lobbyTwo_def)
  have ca: "Conn ?a = Some conn1" and cb: "Conn ?b = Some conn2"
    by (simp_all add: NewOctapod_def)
  have m: "MaxInactive \<le>s InactiveCount ?a" "\<not> MaxInactive \<le>s InactiveCount ?b"
    by (simp_all add: MaxInactive_def word_sle_eq)
  obtain ev :: "Point event list" and l' where t: "TimeoutUpdate lobbyTwo [''a1'', ''b2''] = (ev, l')"
    by (cases "TimeoutUpdate lobbyTwo [''a1'', ''b2''] :: Point event list \<times> Lobby") auto
  from TimeoutUpdate_phase [OF i t a] ca m(1)
  have ra: "Octapods l' ''a1'' = Some (?a\<lparr>Conn := None\<rparr>)" "deliveries ''a1'' ev = [None]"
    "Close conn1 \<in> set ev"
    by auto
  from TimeoutUpdate_phase [OF i t b] cb m(2)
  have rb: "Octapods l' ''b2'' = Some ?b" "deliveries ''b2'' ev = [None]"
    by auto
  from i m ra rb t show ?thesis by simp
qed

subsection \<open>The inactivity counter\<close>

text \<open>
  C3, as stated, says that \<open>InactiveCount\<close> is 0 after every successful reconnection. The
  reconnection path of \<open>identifyOctapod\<close> assigns \<open>Conn\<close> and nothing else. The octapod \<^verbatim>\<open>a1\<close>
  registers, two cycles of the scheduler pass, and the second timeout phase disconnects it
  with a count of 2; it reconnects with its password, the handshake succeeds, and the count
  is still 2.
\<close>

theorem reconnection_keeps_InactiveCount:
  "identifyOctapod (Point 0 0) emptyLobby ''a1'' ''x'' conn1 =
     ([LogPrintln ''New octapod [ a1 ] registered'',
       SendMessage ''New octapod [a1] registered'', Run ''a1''] :: Point event list,
      lobbyA1, Some ''a1'') \<and>
   Octapods lobbyA1Evicted ''a1'' =
     Some ((NewOctapod ''a1'' ''x'' conn1 (Point 0 0))\<lparr>Conn := None, InactiveCount := 2\<rparr>) \<and>
   fst (identifyOctapod (Point 0 0) lobbyA1Evicted ''a1'' ''x'' conn2
        :: Point event list \<times> Lobby \<times> string option) =
     [LogPrintln ''Octapod [ a1 ] reconnected'', SendMessage ''Octapod [a1] reconnected''] \<and>
   Octapods (fst (snd (identifyOctapod (Point 0 0) lobbyA1Evicted ''a1'' ''x'' conn2
                       :: Point event list \<times> Lobby \<times> string option))) ''a1'' =
     Some ((NewOctapod ''a1'' ''x'' conn1 (Point 0 0))\<lparr>Conn := Some conn2, InactiveCount := 2\<rparr>)"
proof -
  have a: "identifyOctapod (Point 0 0) emptyLobby ''a1'' ''x'' conn1 =
     ([LogPrintln ''New octapod [ a1 ] registered'',
       SendMessage ''New octapod [a1] registered'', Run ''a1''] :: Point event list,
      lobbyA1, Some ''a1'')"
    by (simp add: identifyOctapod_def emptyLobby_def lobbyA1_def)
  have b: "Octapods lobbyA1Evicted ''a1'' =
     Some ((NewOctapod ''a1'' ''x'' conn1 (Point 0 0))\<lparr>Conn := None, InactiveCount := 2\<rparr>)"
    by (simp add: lobbyA1Evicted_def lobbyA1_def Update_def TimeoutUpdate_def NewOctapod_def
        Disconnect_def MaxInactive_def word_sle_eq)
  from b have c: "identifyOctapod (Point 0 0) lobbyA1Evicted ''a1'' ''x'' conn2 =
     ([LogPrintln ''Octapod [ a1 ] reconnected'', SendMessage ''Octapod [a1] reconnected'']
        :: Point event list,
      lobbyA1Evicted\<lparr>Octapods := (Octapods lobbyA1Evicted)(''a1'' \<mapsto>
         (NewOctapod ''a1'' ''x'' conn1 (Point 0 0))\<lparr>Conn := Some conn2, InactiveCount := 2\<rparr>)\<rparr>,
      Some ''a1'')"
    by (simp add: identifyOctapod_def VerifyPassword_def NewOctapod_def)
  from a b c show ?thesis by simp
qed

lemma identifyOctapod_InactiveCount:
  assumes "identifyOctapod start l i pw conn = (ev, l', r)"
  shows "(\<forall>k oct. Octapods l k = Some oct \<longrightarrow>
            (\<exists>oct'. Octapods l' k = Some oct' \<and> InactiveCount oct' = InactiveCount oct)) \<and>
         (\<forall>k oct'. Octapods l k = None \<longrightarrow> Octapods l' k = Some oct' \<longrightarrow>
            InactiveCount oct' = 0)"
  using assms
  by (auto simp add: identifyOctapod_def NewOctapod_def split: option.splits if_splits)

lemma HandleJoin_InactiveCount:
  assumes "HandleJoin ToLower Unmarshal start l upgraded = (ev, l')"
  shows "(\<forall>k oct. Octapods l k = Some oct \<longrightarrow>
            (\<exists>oct'. Octapods l' k = Some oct' \<and> InactiveCount oct' = InactiveCount oct)) \<and>
         (\<forall>k oct'. Octapods l k = None \<longrightarrow> Octapods l' k = Some oct' \<longrightarrow>
            InactiveCount oct' = 0)"
proof (cases upgraded)
  case (Inl err)
  with assms show ?thesis by (simp add: HandleJoin_def)
next
  case (Inr conn)
  obtain ev0 :: "'a event list" and res where
    g: "getAuthenticationMessage Unmarshal conn = (ev0, res)"
    by (cases "getAuthenticationMessage Unmarshal conn :: 'a event list \<times> (string + AuthMessage)") auto
  show ?thesis
  proof (cases res)
    case (Inl err)
    with assms g \<open>upgraded = Inr conn\<close> show ?thesis by (simp add: HandleJoin_def)
  next
    case (Inr auth)
    obtain ev1 :: "'a event list" and l1 r1 where
      i: "identifyOctapod start l (ToLower (ID auth)) (Password auth) conn = (ev1, l1, r1)"
      by (cases "identifyOctapod start l (ToLower (ID auth)) (Password auth) conn
                 :: 'a event list \<times> Lobby \<times> string option") auto
    with assms g Inr \<open>upgraded = Inr conn\<close> have "l' = l1"
      by (cases r1) (simp_all add: HandleJoin_def)
    with identifyOctapod_InactiveCount [OF i] show ?thesis by simp
  qed
qed

text \<open>
  C3, amended. Over every call on the lobby whose snapshot (if it takes one) names every
  octapod once: the \<open>InactiveCount\<close> of an octapod of the registry changes in an update
  phase only, and there by exactly one when the octapod has a connection. No other call
  writes it; in particular a handshake that reconnects an octapod leaves the count as it was.
  An octapod that the call adds to the registry was added by a handshake and has a count
  of 0.
\<close>

theorem InactiveCount_moved_by_Update_only:
  assumes "step ToLower Unmarshal GetSensor l c = (ev, l')"
    and "snapshot_ok l c"
  shows "(\<forall>k oct. Octapods l k = Some oct \<longrightarrow>
            (\<exists>oct'. Octapods l' k = Some oct' \<and>
               InactiveCount oct' =
                 (if (\<exists>pods. c = CallUpdate pods) \<and> Conn oct \<noteq> None
                  then InactiveCount oct + 1 else InactiveCount oct))) \<and>
         (\<forall>k oct'. Octapods l k = None \<longrightarrow> Octapods l' k = Some oct' \<longrightarrow>
            InactiveCount oct' = 0 \<and> (\<exists>upgraded start. c = CallHandleJoin upgraded start))"
proof (cases c)
  case (CallHandleJoin upgraded start)
  with assms(1) have "HandleJoin ToLower Unmarshal start l upgraded = (ev, l')" by simp
  from HandleJoin_InactiveCount [OF this] CallHandleJoin show ?thesis by simp
next
  case (CallUpdate pods)
  with assms have d: "distinct pods" and s: "set pods = dom (Octapods l)"
    and u: "UpdateLoop GetSensor pods l = (ev, l')"
    by (simp_all add: iteration_order_def Update_def)
  from UpdateLoop_effect [OF d u] have o: "Octapods l' k =
      (if k \<in> set pods then
         (case Octapods l k of
            None \<Rightarrow> None
          | Some oct \<Rightarrow>
              if Conn oct = None then Some oct
              else Some (oct\<lparr>InactiveCount := InactiveCount oct + 1\<rparr>))
       else Octapods l k)" for k by blast
  have "\<exists>oct'. Octapods l' k = Some oct' \<and>
          InactiveCount oct' = (if Conn oct \<noteq> None then InactiveCount oct + 1 else InactiveCount oct)"
    if "Octapods l k = Some oct" for k oct
  proof -
    from s that have "k \<in> set pods" by auto
    with o [of k] that show ?thesis by auto
  qed
  moreover have "Octapods l' k = None" if "Octapods l k = None" for k
    using o [of k] that by auto
  ultimately show ?thesis using CallUpdate by auto
next
  case (CallTimeoutUpdate pods)
  with assms have d: "distinct pods" and s: "set pods = dom (Octapods l)"
    and u: "TimeoutUpdateLoop pods l = (ev, l')"
    by (simp_all add: iteration_order_def TimeoutUpdate_def)
  from TimeoutUpdateLoop_effect [OF d u] have o: "Octapods l' k =
      (if k \<in> set pods then
         (case Octapods l k of
            None \<Rightarrow> None
          | Some oct \<Rightarrow>
              if Conn oct \<noteq> None \<and> MaxInactive \<le>s InactiveCount oct
              then Some (oct\<lparr>Conn := None\<rparr>) else Some oct)
       else Octapods l k)" for k by blast
  have "\<exists>oct'. Octapods l' k = Some oct' \<and> InactiveCount oct' = InactiveCount oct"
    if "Octapods l k = Some oct" for k oct
    using o [of k] that by auto
  moreover have "Octapods l' k = None" if "Octapods l k = None" for k
    using o [of k] that by auto
  ultimately show ?thesis using CallTimeoutUpdate by auto
next
  case (CallStartTimer timeout)
  with assms(1) have "Octapods l' = Octapods l"
    by (auto simp add: StartTimer_def split: if_splits)
  with CallStartTimer show ?thesis by simp
qed

theorem InactiveCount_moved_by_Update_only_witness:
  "snapshot_ok lobbyA1 (CallUpdate [''a1'']) \<and>
   Octapods lobbyA1 ''a1'' = Some (NewOctapod ''a1'' ''x'' conn1 (Point 0 0)) \<and>
   InactiveCount (NewOctapod ''a1'' ''x'' conn1 (Point 0 0)) = 0 \<and>
   (\<exists>ev l' oct'. step asciiToLower unmarshalEmpty pointSensor lobbyA1 (CallUpdate [''a1'']) = (ev, l') \<and>
      Octapods l' ''a1'' = Some oct' \<and> InactiveCount oct' = 1)"
proof -
  have a: "snapshot_ok lobbyA1 (CallUpdate [''a1''])"
    by (simp add: iteration_order_def lobbyA1_def)
  have b: "Octapods lobbyA1 ''a1'' = Some (NewOctapod ''a1'' ''x'' conn1 (Point 0 0))"
    by (simp add: lobbyA1_def)
  have n: "InactiveCount (NewOctapod ''a1'' ''x'' conn1 (Point 0 0)) = 0"
    "Conn (NewOctapod ''a1'' ''x'' conn1 (Point 0 0)) \<noteq> None"
    by (simp_all add: NewOctapod_def)
  obtain ev l' where c: "step asciiToLower unmarshalEmpty pointSensor lobbyA1 (CallUpdate [''a1'']) = (ev, l')"
    by (cases "step asciiToLower unmarshalEmpty pointSensor lobbyA1 (CallUpdate [''a1''])") auto
  from InactiveCount_moved_by_Update_only [OF c a] b n
  obtain oct' where "Octapods l' ''a1'' = Some oct'" "InactiveCount oct' = 1"
    by fastforce
  with a b n c show ?thesis by blast
qed

subsection \<open>A handshake that fails before it identifies an octapod\<close>

text \<open>
  When the first read fails, the first message is not a text message, or the text does not
  unmarshal, \<open>HandleJoin\<close> leaves the lobby as it was and its second event is the write of an
  error message to the connection. Whether the connection is closed depends on that write:
  it is closed exactly when the write succeeds.
\<close>

lemma handshake_abort_lobby_unchanged:
  assumes "firstRead conn = ReadFails err \<or>
           (\<exists>msgType content. firstRead conn = ReadReturns msgType content \<and>
              (msgType \<noteq> TextMessage \<or> (\<exists>e. Unmarshal content = Inl e)))"
    and "HandleJoin ToLower Unmarshal start l (Inr conn) = (ev :: 's event list, l')"
  shows "l' = l \<and>
         (\<exists>msg. ev ! 1 = WriteMessage conn TextMessage (ErrorMessage msg)) \<and>
         (Close conn \<in> set ev \<longleftrightarrow> writeError conn = None)"
  using assms
  by (auto simp add: HandleJoin_def getAuthenticationMessage_def sendErrorAndClose_def
      split: ReadResult.splits sum.splits option.splits if_splits)

text \<open>
  C4. A handshake whose first read fails, whose first message is not a text message or whose
  text does not unmarshal is to write an error message, close the connection and leave the
  lobby unchanged. The code misses the second of the three when the write fails. On \<open>conn3\<close>
  the read fails and then the write of the error message fails: \<open>sendErrorAndClose\<close> logs the
  failure and returns before it reaches \<^verbatim>\<open>conn.Close()\<close>, \<open>getAuthenticationMessage\<close> and
  \<open>HandleJoin\<close> return, and the connection has not been closed. (After the same
  \<open>sendErrorAndClose\<close>, \<open>identifyOctapod\<close> calls \<^verbatim>\<open>conn.Close()\<close> itself.)
\<close>

theorem handshake_abort_leaves_connection_open:
  "HandleJoin asciiToLower unmarshalEmpty (Point 0 0) lobbyA1 (Inr conn3) =
     ([LogPrintln ''New connection established'',
       WriteMessage conn3 TextMessage (ErrorMessage ''Error reading authentication message: EOF''),
       LogPrintln ''Error sending error message: broken pipe'',
       LogPrintln ''EOF''] :: Point event list,
      lobbyA1) \<and>
   Close conn3 \<notin> set (fst (HandleJoin asciiToLower unmarshalEmpty (Point 0 0) lobbyA1 (Inr conn3)
                             :: Point event list \<times> Lobby))"
  by (simp add: HandleJoin_def getAuthenticationMessage_def sendErrorAndClose_def conn3_def)

subsection \<open>DisplayMaze without octapods to show\<close>

lemma octapodPositionsLoop_no_match:
  assumes "\<And>k oct. Octapods l k = Some oct \<Longrightarrow> id' \<noteq> [] \<and> Id' oct \<noteq> ToLower id'"
  shows "octapodPositionsLoop ToLower l id' ks ps = ps"
  using assms by (induction ks arbitrary: ps) (auto split: option.splits)

text \<open>
  C8. With the empty filter and an empty registry, \<open>DisplayMaze\<close> returns the text
  \<^verbatim>\<open>No octapods in the lobby.\<close> With a filter that is not empty and that no octapod matches,
  it returns \<^verbatim>\<open>No octapods [\<close>, the filter as it was given, and \<^verbatim>\<open>] in the lobby.\<close> instead of a
  grid. An octapod matches when its id is the filter in lower case; the ids of the registry
  are in lower case (\<open>HandleJoin\<close> registers \<open>ToLower\<close> of the id it reads), so this is the match
  without regard to case.
\<close>

theorem DisplayMaze_no_octapods:
  "(Octapods l = Map.empty \<longrightarrow>
      DisplayMaze ToLower l order' [] = Inr ''No octapods in the lobby.'') \<and>
   (id' \<noteq> [] \<and> (\<forall>k oct. Octapods l k = Some oct \<longrightarrow> Id' oct \<noteq> ToLower id') \<longrightarrow>
      DisplayMaze ToLower l order' id' = Inr (''No octapods ['' @ id' @ ''] in the lobby.''))"
proof (intro conjI impI)
  assume "Octapods l = Map.empty"
  then have "octapodPositionsLoop ToLower l [] order' [] = []"
    by (intro octapodPositionsLoop_no_match) simp
  then show "DisplayMaze ToLower l order' [] = Inr ''No octapods in the lobby.''"
    by (simp add: DisplayMaze_def octapodPositions_def)
next
  assume a: "id' \<noteq> [] \<and> (\<forall>k oct. Octapods l k = Some oct \<longrightarrow> Id' oct \<noteq> ToLower id')"
  then have "octapodPositionsLoop ToLower l id' order' [] = []"
    by (intro octapodPositionsLoop_no_match) simp
  with a show "DisplayMaze ToLower l order' id' = Inr (''No octapods ['' @ id' @ ''] in the lobby.'')"
    by (simp add: DisplayMaze_def octapodPositions_def)
qed

theorem DisplayMaze_no_octapods_witness:
  "Octapods emptyLobby = Map.empty \<and>
   DisplayMaze asciiToLower emptyLobby [] [] = Inr ''No octapods in the lobby.'' \<and>
   ''B2'' \<noteq> [] \<and> asciiToLower ''B2'' = ''b2'' \<and>
   DisplayMaze asciiToLower lobbyA1 [''a1''] ''B2'' = Inr ''No octapods [B2] in the lobby.''"
proof -
  have a: "Octapods emptyLobby = Map.empty" by (simp add: emptyLobby_def)
  have b: "asciiToLower ''B2'' = ''b2''" by code_simp
  have c: "\<forall>k oct. Octapods lobbyA1 k = Some oct \<longrightarrow> Id' oct \<noteq> asciiToLower ''B2''"
    by (simp add: lobbyA1_def NewOctapod_def b)
  from DisplayMaze_no_octapods [of emptyLobby asciiToLower "[]" "''B2''"] a
  have d: "DisplayMaze asciiToLower emptyLobby [] [] = Inr ''No octapods in the lobby.''"
    by simp
  from DisplayMaze_no_octapods [of lobbyA1 asciiToLower "[''a1'']" "''B2''"] c
  have e: "DisplayMaze asciiToLower lobbyA1 [''a1''] ''B2'' = Inr ''No octapods [B2] in the lobby.''"
    by simp
  from a b d e show ?thesis by simp
qed

subsection \<open>DisplayMaze and the order of iteration\<close>

lemma octapodPositionsLoop_set:
  "set (octapodPositionsLoop ToLower l id' ks ps) =
     set ps \<union> {(Position oct, oct) | k oct.
                  k \<in> set ks \<and> Octapods l k = Some oct \<and> (id' = [] \<or> Id' oct = ToLower id')}"
proof (induction ks arbitrary: ps)
  case Nil
  then show ?case by simp
next
  case (Cons k ks)
  show ?case
  proof (cases "Octapods l k")
    case None
    then show ?thesis using Cons.IH [of ps] by auto
  next
    case (Some oct)
    show ?thesis
    proof (cases "id' = [] \<or> Id' oct = ToLower id'")
      case True
      with Some have "octapodPositionsLoop ToLower l id' (k # ks) ps =
          octapodPositionsLoop ToLower l id' ks ((Position oct, oct) # ps)" by auto
      then show ?thesis using Cons.IH [of "(Position oct, oct) # ps"] Some True by auto
    next
      case False
      with Some have "octapodPositionsLoop ToLower l id' (k # ks) ps =
          octapodPositionsLoop ToLower l id' ks ps" by auto
      then show ?thesis using Cons.IH [of ps] Some False by auto
    qed
  qed
qed

lemma octapodPositionsLoop_distinct:
  assumes "distinct ks" and "distinct (map fst ps)"
    and "\<And>k1 k2 o1 o2. Octapods l k1 = Some o1 \<Longrightarrow> Octapods l k2 = Some o2 \<Longrightarrow> k1 \<noteq> k2 \<Longrightarrow>
           Position o1 \<noteq> Position o2"
    and "\<And>p k oct. p \<in> fst ` set ps \<Longrightarrow> k \<in> set ks \<Longrightarrow> Octapods l k = Some oct \<Longrightarrow>
           Position oct \<noteq> p"
  shows "distinct (map fst (octapodPositionsLoop ToLower l id' ks ps))"
  using assms(1,2,4)
proof (induction ks arbitrary: ps)
  case Nil
  then show ?case by simp
next
  case (Cons k ks)
  from Cons.prems(1) have d: "distinct ks" and n: "k \<notin> set ks" by simp_all
  have keep: "distinct (map fst (octapodPositionsLoop ToLower l id' ks ps))"
  proof (rule Cons.IH [OF d Cons.prems(2)])
    fix p k' oct
    assume "p \<in> fst ` set ps" "k' \<in> set ks" "Octapods l k' = Some oct"
    then show "Position oct \<noteq> p" using Cons.prems(3) [of p k' oct] by simp
  qed
  show ?case
  proof (cases "Octapods l k")
    case None
    then show ?thesis using keep by simp
  next
    case (Some oct)
    have add: "distinct (map fst (octapodPositionsLoop ToLower l id' ks ((Position oct, oct) # ps)))"
    proof (rule Cons.IH [OF d])
      have "Position oct \<notin> fst ` set ps"
        using Cons.prems(3) [of "Position oct" k oct] Some by auto
      with Cons.prems(2) show "distinct (map fst ((Position oct, oct) # ps))" by simp
    next
      fix p k' oct'
      assume p: "p \<in> fst ` set ((Position oct, oct) # ps)" and k': "k' \<in> set ks"
        and o': "Octapods l k' = Some oct'"
      show "Position oct' \<noteq> p"
      proof (cases "p = Position oct")
        case True
        from k' n have "k' \<noteq> k" by auto
        with assms(3) [OF o' Some] True show ?thesis by simp
      next
        case False
        with p have "p \<in> fst ` set ps" by auto
        with Cons.prems(3) [of p k' oct'] k' o' show ?thesis by simp
      qed
    qed
    from Some keep add show ?thesis by auto
  qed
qed

lemma renderCell_same_map:
  assumes "map_of ps = map_of ps'"
  shows "renderCell m ps x y = renderCell m ps' x y"
  unfolding renderCell_def assms ..

lemma renderRow_same_map:
  assumes "map_of ps = map_of ps'"
  shows "renderRow m ps y xs result = renderRow m ps' y xs result"
  by (induction xs arbitrary: result) (simp_all add: renderCell_same_map [OF assms] split: sum.splits)

lemma renderRows_same_map:
  assumes "map_of ps = map_of ps'"
  shows "renderRows m ps ys result = renderRows m ps' ys result"
  by (induction ys arbitrary: result) (simp_all add: renderRow_same_map [OF assms] split: sum.splits)

lemma octapodPositions_order:
  assumes "iteration_order l ks1" and "iteration_order l ks2"
    and "\<And>k1 k2 o1 o2. Octapods l k1 = Some o1 \<Longrightarrow> Octapods l k2 = Some o2 \<Longrightarrow> k1 \<noteq> k2 \<Longrightarrow>
           Position o1 \<noteq> Position o2"
  shows "map_of (octapodPositions ToLower l ks1 id') = map_of (octapodPositions ToLower l ks2 id')"
    and "octapodPositions ToLower l ks1 id' = [] \<longleftrightarrow> octapodPositions ToLower l ks2 id' = []"
proof -
  from assms(1,2) have d: "distinct ks1" "distinct ks2" and s: "set ks1 = set ks2"
    by (simp_all add: iteration_order_def)
  have e: "set (octapodPositions ToLower l ks1 id') = set (octapodPositions ToLower l ks2 id')"
    by (simp add: octapodPositions_def octapodPositionsLoop_set s)
  have "distinct (map fst (octapodPositions ToLower l ks1 id'))"
    unfolding octapodPositions_def
    by (rule octapodPositionsLoop_distinct [OF d(1)]) (simp_all add: assms(3))
  moreover have "distinct (map fst (octapodPositions ToLower l ks2 id'))"
    unfolding octapodPositions_def
    by (rule octapodPositionsLoop_distinct [OF d(2)]) (simp_all add: assms(3))
  ultimately show "map_of (octapodPositions ToLower l ks1 id') =
      map_of (octapodPositions ToLower l ks2 id')"
    using e by (simp add: map_of_inject_set)
  from e show "octapodPositions ToLower l ks1 id' = [] \<longleftrightarrow>
      octapodPositions ToLower l ks2 id' = []"
    by (metis set_empty)
qed

text \<open>
  C10. For a fixed lobby whose octapods stand on pairwise different cells, \<open>DisplayMaze\<close>
  returns the same result (the same text, or the same panic) for the same filter whatever
  the order in which Go iterates over the registry. Without that condition the result can
  depend on the order: in \<open>lobbyTwo\<close> the octapods \<^verbatim>\<open>a1\<close> and \<^verbatim>\<open>b2\<close> share a cell, and the two
  orders of iteration give two different texts (the cell shows the octapod visited last).
\<close>

theorem DisplayMaze_deterministic:
  "(iteration_order l ks1 \<and> iteration_order l ks2 \<and>
    (\<forall>k1 k2 o1 o2. Octapods l k1 = Some o1 \<and> Octapods l k2 = Some o2 \<and> k1 \<noteq> k2 \<longrightarrow>
       Position o1 \<noteq> Position o2) \<longrightarrow>
    DisplayMaze ToLower l ks1 id' = DisplayMaze ToLower l ks2 id') \<and>
   iteration_order lobbyTwo [''a1'', ''b2''] \<and> iteration_order lobbyTwo [''b2'', ''a1''] \<and>
   DisplayMaze asciiToLower lobbyTwo [''a1'', ''b2''] [] \<noteq>
     DisplayMaze asciiToLower lobbyTwo [''b2'', ''a1''] []"
proof (intro conjI impI)
  assume a: "iteration_order l ks1 \<and> iteration_order l ks2 \<and>
    (\<forall>k1 k2 o1 o2. Octapods l k1 = Some o1 \<and> Octapods l k2 = Some o2 \<and> k1 \<noteq> k2 \<longrightarrow>
       Position o1 \<noteq> Position o2)"
  then have i: "iteration_order l ks1" "iteration_order l ks2"
    and p: "\<And>k1 k2 o1 o2. Octapods l k1 = Some o1 \<Longrightarrow> Octapods l k2 = Some o2 \<Longrightarrow> k1 \<noteq> k2 \<Longrightarrow>
           Position o1 \<noteq> Position o2"
    by blast+
  note o = octapodPositions_order [of l ks1 ks2 ToLower id', OF i p]
  from o(1) have "renderRows (Maze l) (octapodPositions ToLower l ks1 id') ys r =
      renderRows (Maze l) (octapodPositions ToLower l ks2 id') ys r" for ys r
    by (rule renderRows_same_map)
  with o(2) show "DisplayMaze ToLower l ks1 id' = DisplayMaze ToLower l ks2 id'"
    by (simp add: DisplayMaze_def)
next
  show "iteration_order lobbyTwo [''a1'', ''b2'']"
    by (auto simp add: iteration_order_def lobbyTwo_def)
  show "iteration_order lobbyTwo [''b2'', ''a1'']"
    by (auto simp add: iteration_order_def lobbyTwo_def)
  show "DisplayMaze asciiToLower lobbyTwo [''a1'', ''b2''] [] \<noteq>
     DisplayMaze asciiToLower lobbyTwo [''b2'', ''a1''] []"
    by code_simp
qed

theorem DisplayMaze_deterministic_witness:
  "iteration_order lobbyApart [''a1'', ''b2''] \<and> iteration_order lobbyApart [''b2'', ''a1''] \<and>
   Octapods lobbyApart ''a1'' = Some (NewOctapod ''a1'' ''x'' conn1 (Point 0 0)) \<and>
   Octapods lobbyApart ''b2'' = Some (NewOctapod ''b2'' ''z'' conn2 (Point 0 1)) \<and>
   DisplayMaze asciiToLower lobbyApart [''a1'', ''b2''] [] =
     DisplayMaze asciiToLower lobbyApart [''b2'', ''a1''] []"
proof -
  have a: "iteration_order lobbyApart [''a1'', ''b2'']"
    and b: "iteration_order lobbyApart [''b2'', ''a1'']"
    by (auto simp add: iteration_order_def lobbyApart_def)
  have c: "Octapods lobbyApart ''a1'' = Some (NewOctapod ''a1'' ''x'' conn1 (Point 0 0))"
    "Octapods lobbyApart ''b2'' = Some (NewOctapod ''b2'' ''z'' conn2 (Point 0 1))"
    by (simp_all add: lobbyApart_def)
  have d: "\<forall>k1 k2 o1 o2. Octapods lobbyApart k1 = Some o1 \<and> Octapods lobbyApart k2 = Some o2 \<and>
             k1 \<noteq> k2 \<longrightarrow> Position o1 \<noteq> Position o2"
    by (auto simp add: lobbyApart_def NewOctapod_def split: if_splits)
  from DisplayMaze_deterministic
         [of lobbyApart "[''a1'', ''b2'']" "[''b2'', ''a1'']" asciiToLower "[]"] a b d
  have "DisplayMaze asciiToLower lobbyApart [''a1'', ''b2''] [] =
     DisplayMaze asciiToLower lobbyApart [''b2'', ''a1''] []"
    by blast
  with a b c show ?thesis by simp
qed

subsection \<open>DisplayMaze and the empty id\<close>

text \<open>
  On a maze that has the cells it reads, \<open>DisplayMaze\<close> cannot go out of the range of
  \<^verbatim>\<open>cells\<close>. Its result is decided by the octapods it found: it panics on the slice
  \<^verbatim>\<open>Id[0:1]\<close> exactly when an open cell of the maze shows an octapod whose id is empty, and
  returns a text otherwise.
\<close>

lemma cellAt_in_maze:
  assumes "maze_ok m" and "x < nat (Width m)" and "y < nat (Height m)"
  shows "cellAt m x y = Inr (cells m ! x ! y)"
proof -
  from assms(1,2) have "x < length (cells m)" "nat (Height m) \<le> length (cells m ! x)"
    by (simp_all add: maze_ok_def)
  with assms(3) show ?thesis by (simp add: cellAt_def)
qed

lemma renderRow_result:
  assumes "\<And>x. x \<in> set xs \<Longrightarrow> renderCell m ps x y \<noteq> Inl IndexOutOfRange"
  shows "(if \<exists>x \<in> set xs. renderCell m ps x y = Inl SliceBoundsOutOfRange
          then renderRow m ps y xs result = Inl SliceBoundsOutOfRange
          else \<exists>r. renderRow m ps y xs result = Inr r)"
  using assms
proof (induction xs arbitrary: result)
  case Nil
  then show ?case by simp
next
  case (Cons x xs)
  show ?case
  proof (cases "renderCell m ps x y")
    case (Inl e)
    with Cons.prems [of x] have "e = SliceBoundsOutOfRange" by (cases e) simp_all
    with Inl show ?thesis by simp
  next
    case (Inr s)
    have "(if \<exists>x \<in> set xs. renderCell m ps x y = Inl SliceBoundsOutOfRange
          then renderRow m ps y xs (result @ s) = Inl SliceBoundsOutOfRange
          else \<exists>r. renderRow m ps y xs (result @ s) = Inr r)"
      by (rule Cons.IH) (simp add: Cons.prems)
    with Inr show ?thesis by simp
  qed
qed

lemma renderRows_result:
  assumes "\<And>x y. x < nat (Width m) \<Longrightarrow> y \<in> set ys \<Longrightarrow> renderCell m ps x y \<noteq> Inl IndexOutOfRange"
  shows "(if \<exists>y \<in> set ys. \<exists>x < nat (Width m). renderCell m ps x y = Inl SliceBoundsOutOfRange
          then renderRows m ps ys result = Inl SliceBoundsOutOfRange
          else \<exists>r. renderRows m ps ys result = Inr r)"
  using assms
proof (induction ys arbitrary: result)
  case Nil
  then show ?case by simp
next
  case (Cons y ys)
  have "(if \<exists>x \<in> set [0..<nat (Width m)]. renderCell m ps x y = Inl SliceBoundsOutOfRange
          then renderRow m ps y [0..<nat (Width m)] result = Inl SliceBoundsOutOfRange
          else \<exists>r. renderRow m ps y [0..<nat (Width m)] result = Inr r)"
    by (rule renderRow_result) (simp add: Cons.prems)
  moreover have "(\<exists>x \<in> set [0..<nat (Width m)]. renderCell m ps x y = Inl SliceBoundsOutOfRange) \<longleftrightarrow>
      (\<exists>x < nat (Width m). renderCell m ps x y = Inl SliceBoundsOutOfRange)"
    by auto
  ultimately have row: "(if \<exists>x < nat (Width m). renderCell m ps x y = Inl SliceBoundsOutOfRange
          then renderRow m ps y [0..<nat (Width m)] result = Inl SliceBoundsOutOfRange
          else \<exists>r. renderRow m ps y [0..<nat (Width m)] result = Inr r)"
    by simp
  show ?case
  proof (cases "\<exists>x < nat (Width m). renderCell m ps x y = Inl SliceBoundsOutOfRange")
    case True
    with row have "renderRow m ps y [0..<nat (Width m)] result = Inl SliceBoundsOutOfRange"
      by auto
    with True show ?thesis by auto
  next
    case False
    with row obtain r where r: "renderRow m ps y [0..<nat (Width m)] result = Inr r"
      by auto
    have "(if \<exists>y \<in> set ys. \<exists>x < nat (Width m). renderCell m ps x y = Inl SliceBoundsOutOfRange
          then renderRows m ps ys (r @ ''# \<newline>'') = Inl SliceBoundsOutOfRange
          else \<exists>r'. renderRows m ps ys (r @ ''# \<newline>'') = Inr r')"
      by (rule Cons.IH) (simp add: Cons.prems)
    with r False show ?thesis by auto
  qed
qed

lemma renderCell_in_maze:
  assumes "maze_ok m" and "x < nat (Width m)" and "y < nat (Height m)"
  shows "renderCell m ps x y \<noteq> Inl IndexOutOfRange"
    and "renderCell m ps x y = Inl SliceBoundsOutOfRange \<longleftrightarrow>
           \<not> cells m ! x ! y \<and>
           (\<exists>oct. map_of ps (Point (int x) (int y)) = Some oct \<and> Id' oct = [])"
  using cellAt_in_maze [OF assms]
  by (auto simp add: renderCell_def not_le split: option.splits)

lemma DisplayMaze_result:
  assumes "maze_ok (Maze l)"
  shows "(if octapodPositions ToLower l order' id' \<noteq> [] \<and>
            (\<exists>y < nat (Height (Maze l)). \<exists>x < nat (Width (Maze l)).
               \<not> cells (Maze l) ! x ! y \<and>
               (\<exists>oct. map_of (octapodPositions ToLower l order' id') (Point (int x) (int y)) = Some oct \<and>
                      Id' oct = []))
          then DisplayMaze ToLower l order' id' = Inl SliceBoundsOutOfRange
          else \<exists>s. DisplayMaze ToLower l order' id' = Inr s)"
proof -
  let ?ps = "octapodPositions ToLower l order' id'"
  let ?m = "Maze l"
  let ?P = "\<exists>y < nat (Height ?m). \<exists>x < nat (Width ?m).
               \<not> cells ?m ! x ! y \<and>
               (\<exists>oct. map_of ?ps (Point (int x) (int y)) = Some oct \<and> Id' oct = [])"
  have "(if \<exists>y \<in> set [0..<nat (Height ?m)]. \<exists>x < nat (Width ?m).
              renderCell ?m ?ps x y = Inl SliceBoundsOutOfRange
          then renderRows ?m ?ps [0..<nat (Height ?m)] [] = Inl SliceBoundsOutOfRange
          else \<exists>r. renderRows ?m ?ps [0..<nat (Height ?m)] [] = Inr r)"
    by (rule renderRows_result) (simp add: renderCell_in_maze(1) [OF assms])
  moreover have "(\<exists>y \<in> set [0..<nat (Height ?m)]. \<exists>x < nat (Width ?m).
              renderCell ?m ?ps x y = Inl SliceBoundsOutOfRange) \<longleftrightarrow> ?P"
  proof -
    have "(\<exists>y \<in> set [0..<nat (Height ?m)]. \<exists>x < nat (Width ?m).
              renderCell ?m ?ps x y = Inl SliceBoundsOutOfRange) \<longleftrightarrow>
          (\<exists>y < nat (Height ?m). \<exists>x < nat (Width ?m).
              renderCell ?m ?ps x y = Inl SliceBoundsOutOfRange)"
      by auto
    also have "\<dots> \<longleftrightarrow> ?P"
      using renderCell_in_maze(2) [OF assms, of _ _ ?ps] by blast
    finally show ?thesis .
  qed
  ultimately have rows: "(if ?P
          then renderRows ?m ?ps [0..<nat (Height ?m)] [] = Inl SliceBoundsOutOfRange
          else \<exists>r. renderRows ?m ?ps [0..<nat (Height ?m)] [] = Inr r)"
    by simp
  show ?thesis
  proof (cases "?ps = []")
    case True
    then show ?thesis by (simp add: DisplayMaze_def)
  next
    case False
    note ne = this
    show ?thesis
    proof (cases ?P)
      case True
      with rows have "renderRows ?m ?ps [0..<nat (Height ?m)] [] = Inl SliceBoundsOutOfRange"
        by simp
      with ne have r: "DisplayMaze ToLower l order' id' = Inl SliceBoundsOutOfRange"
        by (simp add: DisplayMaze_def)
      from ne True have p: "?ps \<noteq> [] \<and> ?P" by blast
      show ?thesis unfolding if_P [OF p] by (rule r)
    next
      case False
      with rows obtain r where "renderRows ?m ?ps [0..<nat (Height ?m)] [] = Inr r"
        by auto
      with ne have r: "\<exists>s. DisplayMaze ToLower l order' id' = Inr s"
        by (simp add: DisplayMaze_def)
      from False have n: "\<not> (?ps \<noteq> [] \<and> ?P)" by blast
      show ?thesis unfolding if_not_P [OF n] by (rule r)
    qed
  qed
qed

lemma octapodPositions_from_registry:
  assumes "(p, oct) \<in> set (octapodPositions ToLower l order' id')"
  shows "\<exists>k. k \<in> set order' \<and> Octapods l k = Some oct \<and> Position oct = p"
  using assms by (auto simp add: octapodPositions_def octapodPositionsLoop_set)

text \<open>
  C9. \<open>DisplayMaze\<close> shows an octapod by the slice \<^verbatim>\<open>Id[0:1]\<close> of its id. On a maze that has the
  cells it reads, this is safe when every id of the registry is non-empty: the result is a
  text. The handshake does not keep that condition: a first message whose id is empty in
  lower case is accepted, and \<open>HandleJoin\<close> registers an octapod under the empty id. When that
  octapod stands on an open cell of the maze where no other octapod stands, \<open>DisplayMaze\<close>
  with the empty filter panics on the slice, whatever the order of iteration.
\<close>

theorem empty_id_breaks_DisplayMaze:
  "(maze_ok (Maze l0) \<and> (\<forall>k oct. Octapods l0 k = Some oct \<longrightarrow> Id' oct \<noteq> []) \<longrightarrow>
      (\<exists>s. DisplayMaze ToLower l0 order0 id0 = Inr s)) \<and>
   (maze_ok (Maze l) \<and> x < nat (Width (Maze l)) \<and> y < nat (Height (Maze l)) \<and>
    \<not> cells (Maze l) ! x ! y \<and>
    Octapods l [] = None \<and>
    (\<forall>k oct. Octapods l k = Some oct \<longrightarrow> Position oct \<noteq> Point (int x) (int y)) \<and>
    firstRead conn = ReadReturns TextMessage content \<and> Unmarshal content = Inr auth \<and>
    ToLower (ID auth) = [] \<and>
    HandleJoin ToLower Unmarshal (Point (int x) (int y)) l (Inr conn) = (ev :: 's event list, l') \<and>
    iteration_order l' order1 \<longrightarrow>
      Octapods l' [] = Some (NewOctapod [] (Password auth) conn (Point (int x) (int y))) \<and>
      DisplayMaze ToLower l' order1 [] = Inl SliceBoundsOutOfRange)"
proof (intro conjI impI)
  assume a: "maze_ok (Maze l0) \<and> (\<forall>k oct. Octapods l0 k = Some oct \<longrightarrow> Id' oct \<noteq> [])"
  let ?ps = "octapodPositions ToLower l0 order0 id0"
  have "\<not> (?ps \<noteq> [] \<and>
            (\<exists>y < nat (Height (Maze l0)). \<exists>x < nat (Width (Maze l0)).
               \<not> cells (Maze l0) ! x ! y \<and>
               (\<exists>oct. map_of ?ps (Point (int x) (int y)) = Some oct \<and> Id' oct = [])))"
  proof
    assume "?ps \<noteq> [] \<and>
            (\<exists>y < nat (Height (Maze l0)). \<exists>x < nat (Width (Maze l0)).
               \<not> cells (Maze l0) ! x ! y \<and>
               (\<exists>oct. map_of ?ps (Point (int x) (int y)) = Some oct \<and> Id' oct = []))"
    then obtain p oct where mp: "map_of ?ps p = Some oct" and e: "Id' oct = []" by blast
    from mp have "(p, oct) \<in> set ?ps" by (rule map_of_SomeD)
    from octapodPositions_from_registry [OF this] a e show False by blast
  qed
  with DisplayMaze_result [of l0 ToLower order0 id0] a
  show "\<exists>s. DisplayMaze ToLower l0 order0 id0 = Inr s"
    by (simp only: if_False)
next
  assume a: "maze_ok (Maze l) \<and> x < nat (Width (Maze l)) \<and> y < nat (Height (Maze l)) \<and>
    \<not> cells (Maze l) ! x ! y \<and>
    Octapods l [] = None \<and>
    (\<forall>k oct. Octapods l k = Some oct \<longrightarrow> Position oct \<noteq> Point (int x) (int y)) \<and>
    firstRead conn = ReadReturns TextMessage content \<and> Unmarshal content = Inr auth \<and>
    ToLower (ID auth) = [] \<and>
    HandleJoin ToLower Unmarshal (Point (int x) (int y)) l (Inr conn) = (ev, l') \<and>
    iteration_order l' order1"
  let ?new = "NewOctapod [] (Password auth) conn (Point (int x) (int y))"
  let ?p = "Point (int x) (int y)"
  from a have r: "firstRead conn = ReadReturns TextMessage content" "Unmarshal content = Inr auth"
    and t: "ToLower (ID auth) = []" and n: "Octapods l [] = None"
    and h: "HandleJoin ToLower Unmarshal ?p l (Inr conn) = (ev, l')"
    by blast+
  from r have g: "getAuthenticationMessage Unmarshal conn = ([] :: 's event list, Inr auth)"
    by (simp add: getAuthenticationMessage_def)
  from n have i: "identifyOctapod ?p l [] (Password auth) conn =
      ([LogPrintln (''New octapod [ '' @ [] @ '' ] registered''),
        SendMessage (''New octapod ['' @ [] @ ''] registered''), Run []] :: 's event list,
       l\<lparr>Octapods := (Octapods l)([] \<mapsto> ?new)\<rparr>, Some [])"
    by (simp add: identifyOctapod_def)
  from h have l': "l' = l\<lparr>Octapods := (Octapods l)([] \<mapsto> ?new)\<rparr>"
    unfolding HandleJoin_def by (simp add: g t i)
  then show reg: "Octapods l' [] = Some ?new" by simp
  have new: "Id' ?new = []" "Position ?new = ?p" by (simp_all add: NewOctapod_def)
  from l' a have m: "maze_ok (Maze l')" "Maze l' = Maze l" by simp_all
  let ?ps = "octapodPositions ToLower l' order1 []"
  from a reg have "[] \<in> set order1" by (auto simp add: iteration_order_def)
  with reg new(2) have i: "(?p, ?new) \<in> set ?ps"
    by (auto simp add: octapodPositions_def octapodPositionsLoop_set)
  then have ne: "?ps \<noteq> []" by auto
  from i obtain v where v: "map_of ?ps ?p = Some v"
    using weak_map_of_SomeI by fastforce
  then have "(?p, v) \<in> set ?ps" by (rule map_of_SomeD)
  from octapodPositions_from_registry [OF this] obtain k where
    k: "Octapods l' k = Some v" "Position v = ?p" by blast
  have "v = ?new"
  proof (cases "k = []")
    case True
    with k reg show ?thesis by simp
  next
    case False
    with k l' have "Octapods l k = Some v" by simp
    with a k(2) show ?thesis by blast
  qed
  with v new(1) have "\<exists>oct. map_of ?ps ?p = Some oct \<and> Id' oct = []" by simp
  with a m(2) ne have c: "?ps \<noteq> [] \<and>
            (\<exists>y < nat (Height (Maze l')). \<exists>x < nat (Width (Maze l')).
               \<not> cells (Maze l') ! x ! y \<and>
               (\<exists>oct. map_of ?ps (Point (int x) (int y)) = Some oct \<and> Id' oct = []))"
    by auto
  from DisplayMaze_result [OF m(1), of ToLower order1 "[]"]
  show "DisplayMaze ToLower l' order1 [] = Inl SliceBoundsOutOfRange"
    unfolding if_P [OF c] .
qed

theorem empty_id_breaks_DisplayMaze_witness:
  "maze_ok (Maze emptyLobby) \<and> Octapods emptyLobby [] = None \<and>
   firstRead conn1 = ReadReturns TextMessage ''{}'' \<and>
   unmarshalEmpty ''{}'' = Inr \<lparr>ID = [], Password = []\<rparr> \<and> asciiToLower [] = [] \<and>
   \<not> cells (Maze emptyLobby) ! 0 ! 0 \<and>
   (\<exists>ev l'. HandleJoin asciiToLower unmarshalEmpty (Point 0 0) emptyLobby (Inr conn1) =
               (ev :: Point event list, l') \<and>
            iteration_order l' [[]] \<and>
            DisplayMaze asciiToLower l' [[]] [] = Inl SliceBoundsOutOfRange) \<and>
   maze_ok (Maze lobbyA1) \<and> (\<exists>s. DisplayMaze asciiToLower lobbyA1 [''a1''] [] = Inr s)"
proof -
  have m: "maze_ok (Maze emptyLobby)" "maze_ok (Maze lobbyA1)"
    by (simp_all add: maze_ok_def emptyLobby_def lobbyA1_def smallMaze_def numeral_2_eq_2
        All_less_Suc)
  have c: "(0::nat) < nat (Width (Maze emptyLobby))" "(0::nat) < nat (Height (Maze emptyLobby))"
    "\<not> cells (Maze emptyLobby) ! 0 ! 0"
    by (simp_all add: emptyLobby_def smallMaze_def)
  have n: "Octapods emptyLobby [] = None"
    "\<forall>k oct. Octapods emptyLobby k = Some oct \<longrightarrow> Position oct \<noteq> Point (int 0) (int 0)"
    by (simp_all add: emptyLobby_def)
  have r: "firstRead conn1 = ReadReturns TextMessage ''{}''"
    "unmarshalEmpty ''{}'' = Inr \<lparr>ID = [], Password = []\<rparr>"
    "asciiToLower (ID \<lparr>ID = [], Password = []\<rparr>) = []"
    by (simp_all add: conn1_def TextMessage_def unmarshalEmpty_def asciiToLower_def)
  obtain ev :: "Point event list" and l' where
    h: "HandleJoin asciiToLower unmarshalEmpty (Point (int 0) (int 0)) emptyLobby (Inr conn1) = (ev, l')"
    by (cases "HandleJoin asciiToLower unmarshalEmpty (Point (int 0) (int 0)) emptyLobby (Inr conn1)
               :: Point event list \<times> Lobby") auto
  from h r n(1) have "l' = emptyLobby\<lparr>Octapods := (Octapods emptyLobby)([] \<mapsto>
        NewOctapod [] [] conn1 (Point 0 0))\<rparr>"
    by (simp add: HandleJoin_def getAuthenticationMessage_def identifyOctapod_def)
  then have i: "iteration_order l' [[]]"
    by (simp add: iteration_order_def emptyLobby_def)
  have a: "\<forall>k oct. Octapods lobbyA1 k = Some oct \<longrightarrow> Id' oct \<noteq> []"
    by (simp add: lobbyA1_def NewOctapod_def)
  note t = empty_id_breaks_DisplayMaze
    [of lobbyA1 asciiToLower "[''a1'']" "[]" emptyLobby 0 0 conn1 "''{}''" unmarshalEmpty
        "\<lparr>ID = [], Password = []\<rparr>" ev l' "[[]]"]
  from t m(2) a have p1: "\<exists>s. DisplayMaze asciiToLower lobbyA1 [''a1''] [] = Inr s"
    by blast
  from t m(1) c n r h i have p2: "DisplayMaze asciiToLower l' [[]] [] = Inl SliceBoundsOutOfRange"
    by blast
  from h have h': "HandleJoin asciiToLower unmarshalEmpty (Point 0 0) emptyLobby (Inr conn1) = (ev, l')"
    by simp
  from r have r': "asciiToLower [] = []" by simp
  from m c(3) n(1) r(1,2) r' h' i p1 p2 show ?thesis by blast
qed

subsection \<open>The scheduler starts once\<close>

text \<open>
  C7. Starting the scheduler is idempotent. A call of \<open>StartTimer\<close> while the timer is
  running has one effect, the log line, and returns the lobby as it was: no flag changes and
  no goroutine starts. The flag is set after every call, so of two calls in a row the second
  is such a call whatever the lobby was before the first.
\<close>

theorem StartTimer_idempotent:
  "(timerRunning l \<longrightarrow>
      StartTimer l timeout = ([LogPrintln ''Timer already running.''] :: 's event list, l)) \<and>
   timerRunning (snd (StartTimer l timeout :: 's event list \<times> Lobby)) \<and>
   StartTimer (snd (StartTimer l timeout :: 's event list \<times> Lobby)) timeout' =
     ([LogPrintln ''Timer already running.''] :: 's event list,
      snd (StartTimer l timeout :: 's event list \<times> Lobby))"
  by (simp add: StartTimer_def)

theorem StartTimer_idempotent_witness:
  "timerRunning \<lparr>Maze = \<lparr>Width = 1, Height = 1, cells = [[False]]\<rparr>,
                 Octapods = Map.empty, timerRunning = True\<rparr> \<and>
   (StartTimer \<lparr>Maze = \<lparr>Width = 1, Height = 1, cells = [[False]]\<rparr>,
                Octapods = Map.empty, timerRunning = True\<rparr> TimeoutInterval
      :: unit event list \<times> Lobby) =
     ([LogPrintln ''Timer already running.''],
      \<lparr>Maze = \<lparr>Width = 1, Height = 1, cells = [[False]]\<rparr>,
       Octapods = Map.empty, timerRunning = True\<rparr>)"
  using StartTimer_idempotent
    [where ?'s = unit and l = "\<lparr>Maze = \<lparr>Width = 1, Height = 1, cells = [[False]]\<rparr>,
          Octapods = Map.empty, timerRunning = True\<rparr>" and timeout = TimeoutInterval
     and timeout' = TimeoutInterval]
  by simp

end
